theory Spec2Isabelle
  imports Main "HOL-Library.AList"
begin

section \<open>Python values and errors\<close>

text \<open>
  Exceptions of the Python source are values of \<open>error\<close>: every function that can raise
  returns \<open>error + 'a\<close>, with \<open>Inl\<close> for the exception. \<open>DoesNotExist\<close> carries the
  name of the model class, because \<open>except Bill.DoesNotExist\<close> does not catch
  \<open>Committee.DoesNotExist\<close>.
\<close>

datatype error =
    IndexError
  | TypeError
  | KeyError
  | ValueError
  | AttributeError
  | DoesNotExist string
  | MultipleObjectsReturned string
  | IntegrityError
  | MissingRequiredAttribute string
  | XMLSyntaxError
  | OtherError string

definition bindS :: "error + 'a \<Rightarrow> ('a \<Rightarrow> error + 'b) \<Rightarrow> error + 'b" where
  "bindS m f = (case m of Inl e \<Rightarrow> Inl e | Inr x \<Rightarrow> f x)"

subsection \<open>Strings\<close>

text \<open>
  The source is Python 2 and the names are byte strings: \<open>\s\<close> of \<open>re\<close> (no UNICODE flag)
  is the six ASCII whitespace characters, \<open>\d\<close> is \<open>0-9\<close>, and \<open>str.lower\<close> maps
  \<open>A-Z\<close> to \<open>a-z\<close> and leaves every other byte alone.
\<close>

definition is_space :: "char \<Rightarrow> bool" where
  "is_space c = (c \<in> set [CHR '' '', CHR 0x09, CHR 0x0A, CHR 0x0B, CHR 0x0C, CHR 0x0D])"

definition is_digit :: "char \<Rightarrow> bool" where
  "is_digit c = (48 \<le> (of_char c :: nat) \<and> (of_char c :: nat) \<le> 57)"

definition is_lower :: "char \<Rightarrow> bool" where
  "is_lower c = (97 \<le> (of_char c :: nat) \<and> (of_char c :: nat) \<le> 122)"

definition is_upper :: "char \<Rightarrow> bool" where
  "is_upper c = (65 \<le> (of_char c :: nat) \<and> (of_char c :: nat) \<le> 90)"

definition lower_char :: "char \<Rightarrow> char" where
  "lower_char c = (if is_upper c then char_of ((of_char c :: nat) + 32) else c)"

definition lower :: "string \<Rightarrow> string" where
  "lower s = map lower_char s"

text \<open>
  \<open>re.sub(r'\s{2,}', ' ', name)\<close>: the scan goes left to right; where the character
  at hand and the next one are both whitespace the greedy match takes the whole run and
  one space is written for it; any other character is copied.
\<close>

function sub_spaces :: "string \<Rightarrow> string" where
  "sub_spaces [] = []"
| "sub_spaces (c # cs) =
     (if is_space c \<and> (case cs of [] \<Rightarrow> False | d # _ \<Rightarrow> is_space d)
      then CHR '' '' # sub_spaces (dropWhile is_space cs)
      else c # sub_spaces cs)"
  by pat_completeness auto
termination
  by (relation "measure length") (auto simp: length_dropWhile_le le_imp_less_Suc)

definition normalize_name :: "string \<Rightarrow> string" where
  "normalize_name name = lower (sub_spaces name)"

text \<open>
  The reading of the specification ("collapse runs of whitespace to a single space,
  lowercase"), for comparison: every maximal run of whitespace, of any length, becomes one
  space.
\<close>

function collapse_all_runs :: "string \<Rightarrow> string" where
  "collapse_all_runs [] = []"
| "collapse_all_runs (c # cs) =
     (if is_space c then CHR '' '' # collapse_all_runs (dropWhile is_space cs)
      else c # collapse_all_runs cs)"
  by pat_completeness auto
termination
  by (relation "measure length") (auto simp: length_dropWhile_le le_imp_less_Suc)

definition normalize_name_spec :: "string \<Rightarrow> string" where
  "normalize_name_spec name = lower (collapse_all_runs name)"

text \<open>
  The maximal blocks of a string: each block is a maximal run of whitespace or a maximal
  run of other characters.
\<close>

function blocks :: "string \<Rightarrow> string list" where
  "blocks [] = []"
| "blocks (c # cs) =
     (if is_space c
      then (c # takeWhile is_space cs) # blocks (dropWhile is_space cs)
      else (c # takeWhile (\<lambda>d. \<not> is_space d) cs) # blocks (dropWhile (\<lambda>d. \<not> is_space d) cs))"
  by pat_completeness auto
termination
  by (relation "measure length") (auto simp: length_dropWhile_le le_imp_less_Suc)

definition squeeze :: "string \<Rightarrow> string" where
  "squeeze b = (case b of [] \<Rightarrow> [] | c # _ \<Rightarrow> if is_space c \<and> 2 \<le> length b then '' '' else b)"

text \<open>
  \<open>int(s)\<close> of Python 2 on a byte string: surrounding whitespace is stripped, one sign is
  allowed, the rest must be one or more decimal digits; anything else raises ValueError.
  \<open>int(None)\<close> raises TypeError.
\<close>

definition strip :: "string \<Rightarrow> string" where
  "strip s = rev (dropWhile is_space (rev (dropWhile is_space s)))"

definition digits_to_nat :: "string \<Rightarrow> nat" where
  "digits_to_nat ds = foldl (\<lambda>a c. 10 * a + ((of_char c :: nat) - 48)) 0 ds"

definition py_int_str :: "string \<Rightarrow> error + int" where
  "py_int_str s =
     (let t = strip s;
          neg = (case t of [] \<Rightarrow> False | c # _ \<Rightarrow> c = CHR ''-'');
          ds = (case t of [] \<Rightarrow> [] | c # r \<Rightarrow> if c = CHR ''-'' \<or> c = CHR ''+'' then r else t)
      in if ds \<noteq> [] \<and> list_all is_digit ds
         then Inr (if neg then - int (digits_to_nat ds) else int (digits_to_nat ds))
         else Inl ValueError)"

definition py_int :: "string option \<Rightarrow> error + int" where
  "py_int v = (case v of None \<Rightarrow> Inl TypeError | Some s \<Rightarrow> py_int_str s)"

text \<open>
  A Python dict built by assigning the pairs in order: a later pair replaces the value of
  an earlier one with the same key. Lookup is \<open>map_of\<close>.
\<close>

definition dict_of :: "('k \<times> 'v) list \<Rightarrow> ('k \<times> 'v) list" where
  "dict_of kvs = fold (\<lambda>(k, v) d. AList.update k v d) kvs []"

subsection \<open>XML\<close>

text \<open>
  An element of an lxml tree: its tag, its attributes, its text and its child elements.
  \<open>node.get(k)\<close> is \<open>get_attr\<close>; \<open>node.xpath('./a')\<close> and \<open>node.xpath('./a/b')\<close> select
  child elements by tag, in document order.
\<close>

datatype node = Node (tag: string) (attrib: "(string \<times> string) list")
  (node_text: "string option") (children: "node list")

definition get_attr :: "node \<Rightarrow> string \<Rightarrow> string option" where
  "get_attr n k = map_of (attrib n) k"

definition xpath1 :: "node \<Rightarrow> string \<Rightarrow> node list" where
  "xpath1 n a = filter (\<lambda>c. tag c = a) (children n)"

definition xpath2 :: "node \<Rightarrow> string \<Rightarrow> string \<Rightarrow> node list" where
  "xpath2 n a b = concat (map (\<lambda>c. xpath1 c b) (xpath1 n a))"

section \<open>The data model\<close>

text \<open>
  The model classes live in \<open>bill.models\<close>, \<open>person.models\<close>, \<open>committee.models\<close> and
  \<open>parser.models\<close>, which are not part of the sources at hand; the records below carry the
  fields that \<open>bill_parser.py\<close> reads and writes. A field of a fresh object that has not
  been assigned is \<open>None\<close>. A foreign key holds the id of the object it refers to.
\<close>

record person =
  person_pk :: int
  person_name :: string

record committee =
  committee_id :: nat
  code :: string

datatype TermType = TermType_old | TermType_new

record billterm =
  term_id :: "nat option"
  term_type :: TermType
  name :: string

record bill =
  bill_id :: "nat option"
  congress :: "int option"
  bill_type :: "nat option"
  number :: "int option"
  titles :: "(string option \<times> string option \<times> string option) list"
  title :: "string option"
  introduced_date :: "int option"
  sponsor :: "person option"
  sponsor_role :: "nat option"
  current_status_date :: "int option"
  current_status :: "nat option"
  major_actions :: "(int \<times> nat \<times> string) list"
  docs_house_gov_postdate :: "int option"
  senate_floor_schedule_postdate :: "int option"

definition Bill_new :: bill where
  "Bill_new = \<lparr>bill_id = None, congress = None, bill_type = None, number = None, titles = [],
     title = None, introduced_date = None, sponsor = None, sponsor_role = None,
     current_status_date = None, current_status = None, major_actions = [],
     docs_house_gov_postdate = None, senate_floor_schedule_postdate = None\<rparr>"

record cosponsor =
  cos_person :: int
  cos_bill :: "nat option"
  joined :: int
  withdrawn :: "int option"
  role :: "nat option"

record relatedbill =
  rb_bill :: "nat option"
  related_bill :: "nat option"
  relation :: "string option"

datatype log_entry = LogError string | LogDebug string | LogInfo string

datatype collaborator_call = IndexUpdate "nat option" | CreateEvents "nat option"

text \<open>
  The state of a run: the database tables, the two module-level caches, the log and the
  calls made to the search index and the event generator.
\<close>

record state =
  persons :: "person list"
  committees :: "committee list"
  billterms :: "billterm list"
  subterms :: "(nat option \<times> nat option) list"
  bills :: "bill list"
  bill_committees :: "(nat option \<times> nat) list"
  bill_terms :: "(nat option \<times> nat option) list"
  cosponsors :: "cosponsor list"
  relatedbills :: "relatedbill list"
  files :: "(string \<times> nat) list"
  PERSON_CACHE :: "(int \<times> person) list"
  TERM_CACHE :: "((TermType \<times> string) \<times> billterm) list"
  logged :: "log_entry list"
  calls :: "collaborator_call list"

text \<open>The persisted part of a state: every database table, the change records included.\<close>

definition persisted :: "state \<Rightarrow>
    person list \<times> committee list \<times> billterm list \<times> (nat option \<times> nat option) list \<times> bill list \<times>
    (nat option \<times> nat) list \<times> (nat option \<times> nat option) list \<times> cosponsor list \<times>
    relatedbill list \<times> (string \<times> nat) list" where
  "persisted s = (persons s, committees s, billterms s, subterms s, bills s, bill_committees s,
     bill_terms s, cosponsors s, relatedbills s, files s)"

text \<open>
  What \<open>bill_parser.py\<close> calls and the sources at hand do not define: the code tables of
  the enumerations \<open>BillType\<close> and \<open>BillStatus\<close>, \<open>Processor.parse_datetime\<close>,
  \<open>get_primary_bill_title\<close>, \<open>Person.get_role_at_date\<close>, and whether the table of terms
  enforces a unique \<open>(term_type, name)\<close>. They are parameters; each may raise.
\<close>

record env =
  BillType_by_xml_code :: "string option \<Rightarrow> error + nat"
  BillStatus_by_xml_code :: "string option \<Rightarrow> error + nat"
  parse_datetime :: "string option \<Rightarrow> error + int"
  get_primary_bill_title ::
    "bill \<Rightarrow> (string option \<times> string option \<times> string option) list \<Rightarrow> error + string"
  get_role_at_date :: "person \<Rightarrow> int option \<Rightarrow> error + nat option"
  BillTerm_unique :: bool

subsection \<open>Computations on the state\<close>

type_synonym 'a M = "state \<Rightarrow> (error + 'a) \<times> state"

definition returnM :: "'a \<Rightarrow> 'a M" where
  "returnM x s = (Inr x, s)"

definition liftM :: "error + 'a \<Rightarrow> 'a M" where
  "liftM r s = (r, s)"

definition bindM :: "'a M \<Rightarrow> ('a \<Rightarrow> 'b M) \<Rightarrow> 'b M" where
  "bindM m f s = (case m s of (Inl e, s') \<Rightarrow> (Inl e, s') | (Inr x, s') \<Rightarrow> f x s')"

definition log_error :: "string \<Rightarrow> state \<Rightarrow> state" where
  "log_error msg s = s\<lparr>logged := logged s @ [LogError msg]\<rparr>"

definition log_debug :: "string \<Rightarrow> state \<Rightarrow> state" where
  "log_debug msg s = s\<lparr>logged := logged s @ [LogDebug msg]\<rparr>"

definition str_of :: "string option \<Rightarrow> string" where
  "str_of v = (case v of None \<Rightarrow> ''None'' | Some x \<Rightarrow> x)"

subsection \<open>Queries and writes of the object-relational layer\<close>

text \<open>
  \<open>Model.objects.get(...)\<close> returns the one row that matches, and raises
  \<open>DoesNotExist\<close> when none does and \<open>MultipleObjectsReturned\<close> when several do.
\<close>

definition objects_get :: "string \<Rightarrow> ('a \<Rightarrow> bool) \<Rightarrow> 'a list \<Rightarrow> error + 'a" where
  "objects_get model p rows =
     (case filter p rows of
        [] \<Rightarrow> Inl (DoesNotExist model)
      | [r] \<Rightarrow> Inr r
      | _ \<Rightarrow> Inl (MultipleObjectsReturned model))"

definition Bill_objects_get :: "int option \<Rightarrow> nat option \<Rightarrow> int option \<Rightarrow> state \<Rightarrow> error + bill" where
  "Bill_objects_get c t n s =
     objects_get ''Bill'' (\<lambda>b. congress b = c \<and> bill_type b = t \<and> number b = n) (bills s)"

definition Committee_objects_get :: "string option \<Rightarrow> state \<Rightarrow> error + committee" where
  "Committee_objects_get c s =
     objects_get ''Committee'' (\<lambda>x. Some (code x) = c) (committees s)"

text \<open>The id the database gives a new row: one more than the largest id in the table.\<close>

definition fresh_id :: "nat option list \<Rightarrow> nat" where
  "fresh_id ids = Suc (fold (\<lambda>i m. case i of None \<Rightarrow> m | Some k \<Rightarrow> max k m) ids 0)"

text \<open>
  \<open>obj.save()\<close>: an object without an id is inserted and receives a fresh id; an object
  with an id replaces the row of that id (and is inserted under that id when there is no
  such row).
\<close>

definition Bill_save :: "bill \<Rightarrow> state \<Rightarrow> bill \<times> state" where
  "Bill_save obj s =
     (case bill_id obj of
        None \<Rightarrow>
          (let obj' = obj\<lparr>bill_id := Some (fresh_id (map bill_id (bills s)))\<rparr>
           in (obj', s\<lparr>bills := bills s @ [obj']\<rparr>))
      | Some i \<Rightarrow>
          if \<exists>b \<in> set (bills s). bill_id b = Some i
          then (obj, s\<lparr>bills := map (\<lambda>b. if bill_id b = Some i then obj else b) (bills s)\<rparr>)
          else (obj, s\<lparr>bills := bills s @ [obj]\<rparr>))"

text \<open>
  \<open>obj.committees = comlist\<close> and \<open>obj.terms = termlist\<close>: the rows of the relation that
  belong to the object are replaced by one row for each distinct member of the list.
\<close>

definition set_committees :: "bill \<Rightarrow> committee list \<Rightarrow> state \<Rightarrow> state" where
  "set_committees obj comlist s =
     s\<lparr>bill_committees := filter (\<lambda>r. fst r \<noteq> bill_id obj) (bill_committees s)
          @ map (\<lambda>c. (bill_id obj, c)) (remdups (map committee_id comlist))\<rparr>"

definition set_terms :: "bill \<Rightarrow> billterm list \<Rightarrow> state \<Rightarrow> state" where
  "set_terms obj termlist s =
     s\<lparr>bill_terms := filter (\<lambda>r. fst r \<noteq> bill_id obj) (bill_terms s)
          @ map (\<lambda>t. (bill_id obj, t)) (remdups (map term_id termlist))\<rparr>"

section \<open>The reference caches\<close>

text \<open>\<open>get_person\<close> (lines 29-34).\<close>

definition get_person :: "string option \<Rightarrow> person M" where
  "get_person pk s =
     (case py_int pk of
        Inl e \<Rightarrow> (Inl e, s)
      | Inr k \<Rightarrow>
          (let s1 = (if PERSON_CACHE s = []
                     then s\<lparr>PERSON_CACHE := dict_of (map (\<lambda>x. (person_pk x, x)) (persons s))\<rparr>
                     else s)
           in case map_of (PERSON_CACHE s1) k of
                None \<Rightarrow> (Inl KeyError, s1)
              | Some p \<Rightarrow> (Inr p, s1)))"

text \<open>
  \<open>get_term\<close> (lines 44-49). A name that is \<open>None\<close> makes \<open>re.sub\<close> raise TypeError, after
  the cache has been filled. In Python 2 \<open>None >= 111\<close> is \<open>False\<close>.
\<close>

definition get_term :: "string option \<Rightarrow> int option \<Rightarrow> billterm M" where
  "get_term nm cg s =
     (let s1 = (if TERM_CACHE s = []
                then s\<lparr>TERM_CACHE :=
                  dict_of (map (\<lambda>t. ((term_type t, normalize_name (name t)), t)) (billterms s))\<rparr>
                else s);
          ty = (case cg of None \<Rightarrow> TermType_old
                | Some c \<Rightarrow> if 111 \<le> c then TermType_new else TermType_old)
      in case nm of
           None \<Rightarrow> (Inl TypeError, s1)
         | Some n \<Rightarrow>
            (case map_of (TERM_CACHE s1) (ty, normalize_name n) of
               None \<Rightarrow> (Inl KeyError, s1)
             | Some t \<Rightarrow> (Inr t, s1)))"

section \<open>The attribute mapper\<close>

text \<open>
  Modelled from the spec: \<open>Processor.process\<close> of \<open>parser/processor.py\<close>, the base
  class of \<open>TermProcessor\<close> and \<open>BillProcessor\<close>, is not part of the sources at hand. By
  section 4.1 of the specification it fails with an error naming the first missing
  required attribute, and otherwise stores every attribute that is present in its target
  field, through the coercion registered for it. \<open>set_field\<close> is the field mapping and the
  coercions of the subclass.
\<close>

definition Processor_process ::
    "string list \<Rightarrow> string list \<Rightarrow> (string \<Rightarrow> string \<Rightarrow> 'a \<Rightarrow> error + 'a) \<Rightarrow> 'a \<Rightarrow> node \<Rightarrow> error + 'a" where
  "Processor_process REQUIRED_ATTRIBUTES ATTRIBUTES set_field obj nd =
     (case filter (\<lambda>k. get_attr nd k = None) REQUIRED_ATTRIBUTES of
        k # _ \<Rightarrow> Inl (MissingRequiredAttribute k)
      | [] \<Rightarrow>
          fold (\<lambda>k r. bindS r (\<lambda>ob. case get_attr nd k of None \<Rightarrow> Inr ob | Some v \<Rightarrow> set_field k v ob))
            ATTRIBUTES (Inr obj))"

text \<open>
  \<open>TermProcessor\<close> (lines 51-54) maps the attribute \<open>value\<close> to the field \<open>name\<close>. The
  caller assigns \<open>term_type\<close> in the next statement; the model builds the new object from
  both.
\<close>

definition TermProcessor_process :: "TermType \<Rightarrow> node \<Rightarrow> error + billterm" where
  "TermProcessor_process ty nd =
     Processor_process [''value''] [''value''] (\<lambda>k v ob. Inr (if k = ''value'' then ob\<lparr>name := v\<rparr> else ob))
       \<lparr>term_id = None, term_type = ty, name = []\<rparr> nd"

section \<open>BillProcessor\<close>

text \<open>Lines 57-63 and 135-139: the required attributes, the field mapping and the handlers.\<close>

definition type_handler :: "env \<Rightarrow> string \<Rightarrow> error + nat" where
  "type_handler env v = BillType_by_xml_code env (Some v)"

definition session_handler :: "string \<Rightarrow> error + int" where
  "session_handler v = py_int_str v"

definition number_handler :: "string \<Rightarrow> error + int" where
  "number_handler v = py_int_str v"

definition BillProcessor_set_field :: "env \<Rightarrow> string \<Rightarrow> string \<Rightarrow> bill \<Rightarrow> error + bill" where
  "BillProcessor_set_field env k v obj =
     (if k = ''type'' then bindS (type_handler env v) (\<lambda>x. Inr (obj\<lparr>bill_type := Some x\<rparr>))
      else if k = ''session'' then bindS (session_handler v) (\<lambda>x. Inr (obj\<lparr>congress := Some x\<rparr>))
      else if k = ''number'' then bindS (number_handler v) (\<lambda>x. Inr (obj\<lparr>number := Some x\<rparr>))
      else Inr obj)"

definition BillProcessor_attributes :: "env \<Rightarrow> bill \<Rightarrow> node \<Rightarrow> error + bill" where
  "BillProcessor_attributes env obj nd =
     Processor_process [''type'', ''session'', ''number''] [''type'', ''session'', ''number'']
       (BillProcessor_set_field env) obj nd"

text \<open>\<open>process_introduced\<close> (lines 85-87).\<close>

definition process_introduced :: "env \<Rightarrow> bill \<Rightarrow> node \<Rightarrow> error + bill" where
  "process_introduced env obj nd =
     (case xpath1 nd ''introduced'' of
        [] \<Rightarrow> Inl IndexError
      | elem # _ \<Rightarrow>
          bindS (parse_datetime env (get_attr elem ''datetime''))
            (\<lambda>d. Inr (obj\<lparr>introduced_date := Some d\<rparr>)))"

text \<open>\<open>process_current_status\<close> (lines 89-92).\<close>

definition process_current_status :: "env \<Rightarrow> bill \<Rightarrow> node \<Rightarrow> error + bill" where
  "process_current_status env obj nd =
     (case xpath1 nd ''state'' of
        [] \<Rightarrow> Inl IndexError
      | elem # _ \<Rightarrow>
          bindS (parse_datetime env (get_attr elem ''datetime''))
            (\<lambda>d. bindS (BillStatus_by_xml_code env (node_text elem))
              (\<lambda>st. Inr (obj\<lparr>current_status_date := Some d, current_status := Some st\<rparr>))))"

text \<open>\<open>process_titles\<close> (lines 94-100). An empty text counts as no text.\<close>

definition process_titles :: "env \<Rightarrow> bill \<Rightarrow> node \<Rightarrow> error + bill" where
  "process_titles env obj nd =
     (let ts = map (\<lambda>elem. (get_attr elem ''type'', get_attr elem ''as'',
                     (case node_text elem of None \<Rightarrow> None
                      | Some t \<Rightarrow> if t = [] then None else Some t)))
                 (xpath2 nd ''titles'' ''title'');
          obj1 = obj\<lparr>titles := ts\<rparr>
      in bindS (get_primary_bill_title env obj1 ts) (\<lambda>t. Inr (obj1\<lparr>title := Some t\<rparr>)))"

text \<open>
  \<open>process_sponsor\<close> (lines 102-109). The body of the \<open>try\<close> returns the object as far
  as it was assigned; the two handlers catch IndexError and TypeError and nothing else.
\<close>

definition process_sponsor_try :: "env \<Rightarrow> bill \<Rightarrow> node \<Rightarrow> state \<Rightarrow> (error + unit) \<times> bill \<times> state" where
  "process_sponsor_try env obj nd s =
     (case xpath1 nd ''sponsor'' of
        [] \<Rightarrow> (Inl IndexError, obj, s)
      | elem # _ \<Rightarrow>
          (case get_person (get_attr elem ''id'') s of
             (Inl e, s1) \<Rightarrow> (Inl e, obj, s1)
           | (Inr p, s1) \<Rightarrow>
               (let obj1 = obj\<lparr>sponsor := Some p\<rparr>
                in case get_role_at_date env p (introduced_date obj1) of
                     Inl e \<Rightarrow> (Inl e, obj1, s1)
                   | Inr r \<Rightarrow> (Inr (), obj1\<lparr>sponsor_role := r\<rparr>, s1))))"

definition process_sponsor :: "env \<Rightarrow> bill \<Rightarrow> node \<Rightarrow> bill M" where
  "process_sponsor env obj nd s =
     (case process_sponsor_try env obj nd s of
        (Inr u, obj1, s1) \<Rightarrow> (Inr obj1, s1)
      | (Inl e, obj1, s1) \<Rightarrow>
          if e = IndexError then (Inr (obj1\<lparr>sponsor := None\<rparr>), s1)
          else if e = TypeError then (Inr (obj1\<lparr>sponsor := None\<rparr>), s1)
          else (Inl e, s1))"

text \<open>\<open>process_committees\<close> (lines 141-151).\<close>

fun committees_loop :: "node list \<Rightarrow> committee list \<Rightarrow> committee list M" where
  "committees_loop [] comlist s = (Inr comlist, s)"
| "committees_loop (subnode # rest) comlist s =
     (if get_attr subnode ''code'' = Some [] then committees_loop rest comlist s
      else case Committee_objects_get (get_attr subnode ''code'') s of
             Inl e \<Rightarrow>
               if e = DoesNotExist ''Committee''
               then committees_loop rest comlist
                      (log_error (''Could not find committee '' @ str_of (get_attr subnode ''code'')) s)
               else (Inl e, s)
           | Inr com \<Rightarrow> committees_loop rest (comlist @ [com]) s)"

definition process_committees :: "bill \<Rightarrow> node \<Rightarrow> unit M" where
  "process_committees obj nd =
     bindM (committees_loop (xpath2 nd ''committees'' ''committee'') [])
       (\<lambda>comlist s. (Inr (), set_committees obj comlist s))"

text \<open>\<open>process_terms\<close> (lines 153-161).\<close>

fun terms_loop :: "int option \<Rightarrow> node list \<Rightarrow> billterm list \<Rightarrow> billterm list M" where
  "terms_loop cg [] termlist s = (Inr termlist, s)"
| "terms_loop cg (subnode # rest) termlist s =
     (case get_term (get_attr subnode ''name'') cg s of
        (Inl e, s1) \<Rightarrow>
          if e = KeyError
          then terms_loop cg rest termlist
                 (log_error (''Could not find term [name: '' @ str_of (get_attr subnode ''name'') @ '']'') s1)
          else (Inl e, s1)
      | (Inr t, s1) \<Rightarrow> terms_loop cg rest (termlist @ [t]) s1)"

definition process_terms :: "bill \<Rightarrow> node \<Rightarrow> int option \<Rightarrow> unit M" where
  "process_terms obj nd cg =
     bindM (terms_loop cg (xpath2 nd ''subjects'' ''term'') [])
       (\<lambda>termlist s. (Inr (), set_terms obj termlist s))"

text \<open>
  \<open>process_consponsors\<close> (lines 111-133). \<open>get_or_create\<close> looks the row up by person
  and bill and creates it from the defaults when there is none; \<open>ob.save()\<close> writes the
  row back.
\<close>

definition Cosponsor_get_or_create ::
    "person \<Rightarrow> bill \<Rightarrow> int \<Rightarrow> int option \<Rightarrow> nat option \<Rightarrow> cosponsor M" where
  "Cosponsor_get_or_create p obj j w r s =
     (case filter (\<lambda>c. cos_person c = person_pk p \<and> cos_bill c = bill_id obj) (cosponsors s) of
        [] \<Rightarrow>
          (let ob = \<lparr>cos_person = person_pk p, cos_bill = bill_id obj, joined = j,
                     withdrawn = w, role = r\<rparr>
           in (Inr ob, s\<lparr>cosponsors := cosponsors s @ [ob]\<rparr>))
      | [ob] \<Rightarrow> (Inr ob, s)
      | _ \<Rightarrow> (Inl (MultipleObjectsReturned ''Cosponsor''), s))"

definition Cosponsor_save :: "cosponsor \<Rightarrow> state \<Rightarrow> state" where
  "Cosponsor_save ob s =
     s\<lparr>cosponsors := map (\<lambda>c. if cos_person c = cos_person ob \<and> cos_bill c = cos_bill ob
                               then ob else c) (cosponsors s)\<rparr>"

definition parse_withdrawn :: "env \<Rightarrow> string option \<Rightarrow> error + int option" where
  "parse_withdrawn env v =
     (case v of
        None \<Rightarrow> Inr None
      | Some x \<Rightarrow> if x = [] then Inr None
                  else bindS (parse_datetime env (Some x)) (\<lambda>d. Inr (Some d)))"

fun consponsors_loop :: "env \<Rightarrow> bill \<Rightarrow> node list \<Rightarrow> unit M" where
  "consponsors_loop env obj [] s = (Inr (), s)"
| "consponsors_loop env obj (subnode # rest) s =
     (case get_person (get_attr subnode ''id'') s of
        (Inl e, s1) \<Rightarrow>
          if e = IndexError then consponsors_loop env obj rest s1 else (Inl e, s1)
      | (Inr p, s1) \<Rightarrow>
          (case parse_datetime env (get_attr subnode ''joined'') of
             Inl e \<Rightarrow> (Inl e, s1)
           | Inr j \<Rightarrow>
               (case parse_withdrawn env (get_attr subnode ''withdrawn'') of
                  Inl e \<Rightarrow> (Inl e, s1)
                | Inr w \<Rightarrow>
                    (case get_role_at_date env p (Some j) of
                       Inl e \<Rightarrow> (Inl e, s1)
                     | Inr r \<Rightarrow>
                         (case Cosponsor_get_or_create p obj j w r s1 of
                            (Inl e, s2) \<Rightarrow> (Inl e, s2)
                          | (Inr ob, s2) \<Rightarrow>
                              consponsors_loop env obj rest
                                (if joined ob \<noteq> j \<or> withdrawn ob \<noteq> w
                                 then Cosponsor_save (ob\<lparr>joined := j, withdrawn := w\<rparr>) s2
                                 else s2))))))"

definition process_consponsors :: "env \<Rightarrow> bill \<Rightarrow> node \<Rightarrow> unit M" where
  "process_consponsors env obj nd = consponsors_loop env obj (xpath2 nd ''cosponsors'' ''cosponsor'')"

text \<open>
  \<open>process_relatedbills\<close> (lines 163-170). The keyword arguments are evaluated first
  (the code table, then \<open>int\<close>); the query then coerces the session string, and a session
  that is \<open>None\<close> matches a row whose congress is null.
\<close>

definition related_lookup :: "env \<Rightarrow> node \<Rightarrow> state \<Rightarrow> error + bill" where
  "related_lookup env subnode s =
     bindS (BillType_by_xml_code env (get_attr subnode ''type''))
       (\<lambda>t. bindS (py_int (get_attr subnode ''number''))
         (\<lambda>n. bindS (case get_attr subnode ''session'' of None \<Rightarrow> Inr None
                      | Some v \<Rightarrow> bindS (py_int_str v) (\<lambda>c. Inr (Some c)))
           (\<lambda>c. Bill_objects_get c (Some t) (Some n) s)))"

fun relatedbills_loop :: "env \<Rightarrow> bill \<Rightarrow> node list \<Rightarrow> unit M" where
  "relatedbills_loop env obj [] s = (Inr (), s)"
| "relatedbills_loop env obj (subnode # rest) s =
     (case related_lookup env subnode s of
        Inl e \<Rightarrow>
          if e = DoesNotExist ''Bill'' then relatedbills_loop env obj rest s else (Inl e, s)
      | Inr b \<Rightarrow>
          relatedbills_loop env obj rest
            (s\<lparr>relatedbills := relatedbills s @
                [\<lparr>rb_bill = bill_id obj, related_bill = bill_id b,
                  relation = get_attr subnode ''relation''\<rparr>]\<rparr>))"

definition process_relatedbills :: "env \<Rightarrow> bill \<Rightarrow> node \<Rightarrow> unit M" where
  "process_relatedbills env obj nd s =
     relatedbills_loop env obj (xpath2 nd ''relatedbills'' ''bill'')
       (s\<lparr>relatedbills := filter (\<lambda>r. rb_bill r \<noteq> bill_id obj) (relatedbills s)\<rparr>)"

text \<open>
  Lines 72-76: the object takes the id of the bill stored under its natural key, when
  there is one.
\<close>

definition adopt_id :: "bill \<Rightarrow> bill M" where
  "adopt_id obj s =
     (case Bill_objects_get (congress obj) (bill_type obj) (number obj) s of
        Inr b \<Rightarrow> (Inr (obj\<lparr>bill_id := bill_id b\<rparr>), s)
      | Inl e \<Rightarrow> if e = DoesNotExist ''Bill'' then (Inr obj, s) else (Inl e, s))"

text \<open>\<open>BillProcessor.process\<close> (lines 65-83).\<close>

definition process :: "env \<Rightarrow> bill \<Rightarrow> node \<Rightarrow> bill M" where
  "process env obj0 nd =
     bindM (liftM (BillProcessor_attributes env obj0 nd)) (\<lambda>obj1.
     bindM (liftM (process_titles env obj1 nd)) (\<lambda>obj2.
     bindM (liftM (process_introduced env obj2 nd)) (\<lambda>obj3.
     bindM (process_sponsor env obj3 nd) (\<lambda>obj4.
     bindM (liftM (process_current_status env obj4 nd)) (\<lambda>obj5.
     bindM (adopt_id obj5) (\<lambda>obj6.
     bindM (\<lambda>s. case Bill_save obj6 s of (obj7, s') \<Rightarrow> (Inr obj7, s')) (\<lambda>obj.
     bindM (process_committees obj nd) (\<lambda>_.
     bindM (process_terms obj nd (congress obj)) (\<lambda>_.
     bindM (process_consponsors env obj nd) (\<lambda>_.
     bindM (process_relatedbills env obj nd) (\<lambda>_.
     returnM obj)))))))))))"

section \<open>The run: \<open>main\<close>\<close>

text \<open>
  The files of a run: each path has a signature (what the change records compare) and,
  when it is well-formed XML, its root element. \<open>etree.parse\<close> raises on a file that is
  not well-formed.
\<close>

record fsfile =
  signature :: nat
  content :: "node option"

type_synonym filesystem = "(string \<times> fsfile) list"

definition etree_parse :: "filesystem \<Rightarrow> string \<Rightarrow> error + node" where
  "etree_parse fs path =
     (case map_of fs path of
        None \<Rightarrow> Inl (OtherError ''IOError'')
      | Some f \<Rightarrow> (case content f of None \<Rightarrow> Inl XMLSyntaxError | Some root \<Rightarrow> Inr root))"

text \<open>
  Modelled from the spec: \<open>File.objects.is_changed\<close> and \<open>File.objects.save_file\<close> of
  \<open>parser/models.py\<close> are not part of the sources at hand. By section 4.3 of the
  specification a path is changed when it has no record or the recorded signature differs
  from the current one, and saving records the current signature.
\<close>

definition is_changed :: "filesystem \<Rightarrow> string \<Rightarrow> state \<Rightarrow> bool" where
  "is_changed fs path s =
     (case map_of (files s) path of
        None \<Rightarrow> True
      | Some sg \<Rightarrow> map_option signature (map_of fs path) \<noteq> Some sg)"

definition save_file :: "filesystem \<Rightarrow> string \<Rightarrow> unit M" where
  "save_file fs path s =
     (case map_of fs path of
        None \<Rightarrow> (Inl (OtherError ''IOError''), s)
      | Some f \<Rightarrow> (Inr (), s\<lparr>files := AList.update path (signature f) (files s)\<rparr>))"

subsection \<open>Terms (lines 179-260)\<close>

record locals =
  existing_terms :: "((TermType \<times> string) \<times> billterm) list"
  terms_parsed :: "nat option list"

text \<open>
  \<open>term.save()\<close> of a new term inserts a row; where the table enforces a unique
  \<open>(term_type, name)\<close> the insert of a second row with the same pair raises
  IntegrityError.
\<close>

definition BillTerm_save :: "env \<Rightarrow> billterm \<Rightarrow> billterm M" where
  "BillTerm_save env t s =
     (if BillTerm_unique env \<and>
         (\<exists>r \<in> set (billterms s). term_type r = term_type t \<and> name r = name t \<and> term_id r \<noteq> term_id t)
      then (Inl IntegrityError, s)
      else case term_id t of
             None \<Rightarrow>
               (let t' = t\<lparr>term_id := Some (fresh_id (map term_id (billterms s)))\<rparr>
                in (Inr t', s\<lparr>billterms := billterms s @ [t']\<rparr>))
           | Some i \<Rightarrow>
               if \<exists>r \<in> set (billterms s). term_id r = Some i
               then (Inr t, s\<lparr>billterms := map (\<lambda>r. if term_id r = Some i then t else r) (billterms s)\<rparr>)
               else (Inr t, s\<lparr>billterms := billterms s @ [t]\<rparr>))"

definition subterms_clear :: "billterm \<Rightarrow> state \<Rightarrow> state" where
  "subterms_clear t s = s\<lparr>subterms := filter (\<lambda>r. fst r \<noteq> term_id t) (subterms s)\<rparr>"

definition subterms_add :: "billterm \<Rightarrow> billterm \<Rightarrow> state \<Rightarrow> state" where
  "subterms_add t sub s = s\<lparr>subterms := List.insert (term_id t, term_id sub) (subterms s)\<rparr>"

definition BillTerm_delete :: "billterm \<Rightarrow> state \<Rightarrow> state" where
  "BillTerm_delete t s =
     s\<lparr>billterms := filter (\<lambda>r. term_id r \<noteq> term_id t) (billterms s),
       subterms := filter (\<lambda>r. fst r \<noteq> term_id t \<and> snd r \<noteq> term_id t) (subterms s),
       bill_terms := filter (\<lambda>r. snd r \<noteq> term_id t) (bill_terms s)\<rparr>"

text \<open>
  Lines 184-187: the snapshot of the existing terms, keyed by \<open>(int(term.term_type),
  term.name)\<close>.
\<close>

definition snapshot_terms :: "state \<Rightarrow> ((TermType \<times> string) \<times> billterm) list" where
  "snapshot_terms s = dict_of (map (\<lambda>t. ((term_type t, name t), t)) (billterms s))"

text \<open>
  A top-term node (lines 193-202 and 227-236): the bare \<open>except\<close> catches the KeyError
  of the lookup; an error of \<open>term.save()\<close> inside the handler is not caught.
\<close>

definition top_term :: "env \<Rightarrow> TermType \<Rightarrow> node \<Rightarrow> locals \<Rightarrow> state \<Rightarrow> (error + billterm) \<times> locals \<times> state" where
  "top_term env ty nd l s =
     (case TermProcessor_process ty nd of
        Inl e \<Rightarrow> (Inl e, l, s)
      | Inr t \<Rightarrow>
          (case map_of (existing_terms l) (term_type t, name t) of
             Some t' \<Rightarrow> (Inr t', l\<lparr>terms_parsed := List.insert (term_id t') (terms_parsed l)\<rparr>, s)
           | None \<Rightarrow>
               (case BillTerm_save env t (log_debug (''Created '' @ name t) s) of
                  (Inl e, s1) \<Rightarrow> (Inl e, l, s1)
                | (Inr t1, s1) \<Rightarrow> (Inr t1, l, subterms_clear t1 s1))))"

text \<open>
  A subterm node (lines 204-221 and 238-255): a created subterm is entered in
  \<open>existing_terms\<close> and in \<open>terms_parsed\<close>, and IntegrityError of its \<open>save()\<close> is
  logged and the subterm skipped.
\<close>

definition sub_term :: "env \<Rightarrow> TermType \<Rightarrow> billterm \<Rightarrow> node \<Rightarrow> locals \<Rightarrow> state \<Rightarrow> (error + unit) \<times> locals \<times> state" where
  "sub_term env ty t subnode l s =
     (case TermProcessor_process ty subnode of
        Inl e \<Rightarrow> (Inl e, l, s)
      | Inr st \<Rightarrow>
          (case map_of (existing_terms l) (term_type st, name st) of
             Some st' \<Rightarrow>
               (Inr (), l\<lparr>terms_parsed := List.insert (term_id st') (terms_parsed l)\<rparr>,
                subterms_add t st' s)
           | None \<Rightarrow>
               (case BillTerm_save env st
                       (log_debug (''Created '' @ (if ty = TermType_old then name st else name t)) s) of
                  (Inl e, s1) \<Rightarrow>
                    if e = IntegrityError
                    then (Inr (), l,
                          log_error (''Duplicated term '' @ str_of (get_attr subnode ''value'')) s1)
                    else (Inl e, l, s1)
                | (Inr st1, s1) \<Rightarrow>
                    (Inr (),
                     l\<lparr>existing_terms := AList.update (term_type st1, name st1) st1 (existing_terms l),
                       terms_parsed := List.insert (term_id st1) (terms_parsed l)\<rparr>,
                     subterms_add t st1 s1))))"

fun subterms_loop :: "env \<Rightarrow> TermType \<Rightarrow> billterm \<Rightarrow> node list \<Rightarrow> locals \<Rightarrow> state \<Rightarrow> (error + unit) \<times> locals \<times> state" where
  "subterms_loop env ty t [] l s = (Inr (), l, s)"
| "subterms_loop env ty t (subnode # rest) l s =
     (case sub_term env ty t subnode l s of
        (Inl e, l1, s1) \<Rightarrow> (Inl e, l1, s1)
      | (Inr u, l1, s1) \<Rightarrow> subterms_loop env ty t rest l1 s1)"

fun top_terms_loop :: "env \<Rightarrow> TermType \<Rightarrow> node list \<Rightarrow> locals \<Rightarrow> state \<Rightarrow> (error + unit) \<times> locals \<times> state" where
  "top_terms_loop env ty [] l s = (Inr (), l, s)"
| "top_terms_loop env ty (nd # rest) l s =
     (case top_term env ty nd l s of
        (Inl e, l1, s1) \<Rightarrow> (Inl e, l1, s1)
      | (Inr t, l1, s1) \<Rightarrow>
          (case subterms_loop env ty t (xpath1 nd ''term'') l1 s1 of
             (Inl e, l2, s2) \<Rightarrow> (Inl e, l2, s2)
           | (Inr u, l2, s2) \<Rightarrow> top_terms_loop env ty rest l2 s2))"

text \<open>One taxonomy file: \<open>tree.xpath('/liv/top-term')\<close> and the loop over its nodes.\<close>

definition terms_file :: "env \<Rightarrow> TermType \<Rightarrow> filesystem \<Rightarrow> string \<Rightarrow> locals \<Rightarrow> state \<Rightarrow> (error + unit) \<times> locals \<times> state" where
  "terms_file env ty fs path l s =
     (case etree_parse fs path of
        Inl e \<Rightarrow> (Inl e, l, s)
      | Inr root \<Rightarrow>
          top_terms_loop env ty (if tag root = ''liv'' then xpath1 root ''top-term'' else []) l s)"

text \<open>Lines 257-260: every snapshot entry whose id was not seen is deleted.\<close>

fun delete_unseen :: "billterm list \<Rightarrow> nat option list \<Rightarrow> state \<Rightarrow> state" where
  "delete_unseen [] seen s = s"
| "delete_unseen (t # ts) seen s =
     (if term_id t \<notin> set seen
      then delete_unseen ts seen (BillTerm_delete t (log_debug (''Deleted '' @ name t) s))
      else delete_unseen ts seen s)"

definition main_terms :: "env \<Rightarrow> filesystem \<Rightarrow> state \<Rightarrow> (error + unit) \<times> state" where
  "main_terms env fs s =
     (let l0 = \<lparr>existing_terms = snapshot_terms s, terms_parsed = []\<rparr> in
      case terms_file env TermType_old fs ''data/us/liv.xml'' l0 s of
        (Inl e, l1, s1) \<Rightarrow> (Inl e, s1)
      | (Inr u, l1, s1) \<Rightarrow>
      (case terms_file env TermType_new fs ''data/us/liv111.xml'' l1 s1 of
         (Inl e, l2, s2) \<Rightarrow> (Inl e, s2)
       | (Inr u, l2, s2) \<Rightarrow>
       (case terms_file env TermType_new fs ''data/us/crsnet.xml'' l2 s2 of
          (Inl e, l3, s3) \<Rightarrow> (Inl e, s3)
        | (Inr u, l3, s3) \<Rightarrow>
            (Inr (), delete_unseen (map snd (existing_terms l3)) (terms_parsed l3) s3))))"

subsection \<open>Bills (lines 262-331)\<close>

record options =
  force :: bool
  disable_indexing :: bool
  disable_events :: bool

text \<open>
  \<open>re.search(r"/(\d+)/bills/([a-z]+)(\d+)\.xml$", fname)\<close>, read from the end of the
  path: \<open>$\<close> stands at the end or before one final newline; before \<open>.xml\<close> comes the run
  of digits, before it the run of lowercase letters, then \<open>/bills/\<close>, then a run of digits
  with a slash in front. The result is the three groups.
\<close>

definition parse_bill_path :: "string \<Rightarrow> (string \<times> string \<times> string) option" where
  "parse_bill_path fname =
     (let r0 = rev fname;
          r1 = (case r0 of [] \<Rightarrow> r0 | c # r \<Rightarrow> if c = CHR 0x0A then r else r0)
      in if take 4 r1 \<noteq> rev ''.xml'' then None
         else
           (let r2 = drop 4 r1;
                g3 = rev (takeWhile is_digit r2);
                r3 = dropWhile is_digit r2;
                g2 = rev (takeWhile is_lower r3);
                r4 = dropWhile is_lower r3
            in if g3 = [] \<or> g2 = [] \<or> take 7 r4 \<noteq> rev ''/bills/'' then None
               else
                 (let r5 = drop 7 r4;
                      g1 = rev (takeWhile is_digit r5);
                      r6 = dropWhile is_digit r5
                  in if g1 = [] \<or> (case r6 of [] \<Rightarrow> True | c # _ \<Rightarrow> c \<noteq> CHR ''/'') then None
                     else Some (g1, g2, g3))))"

text \<open>
  The query by the groups of the path (lines 291 and 316): the code table is consulted
  first, the query coerces the two digit strings.
\<close>

definition bill_of_path :: "env \<Rightarrow> string \<times> string \<times> string \<Rightarrow> state \<Rightarrow> error + bill" where
  "bill_of_path env m s =
     (case m of (g1, g2, g3) \<Rightarrow>
        bindS (BillType_by_xml_code env (Some g2))
          (\<lambda>t. bindS (py_int_str g1)
            (\<lambda>c. bindS (py_int_str g3)
              (\<lambda>n. Bill_objects_get (Some c) (Some t) (Some n) s))))"

text \<open>
  Lines 288-303, the body of the \<open>if\<close> for an unchanged file: the result is
  \<open>Some seen\<close> when the \<open>continue\<close> is reached and \<open>None\<close> when \<open>Bill.DoesNotExist\<close>
  was caught and the file is parsed as usual. A path the pattern does not match makes
  \<open>m.group\<close> raise AttributeError.
\<close>

definition skip_path :: "env \<Rightarrow> options \<Rightarrow> filesystem \<Rightarrow> string \<Rightarrow> nat option list \<Rightarrow> (nat option list) option M" where
  "skip_path env opts fs fname seen s =
     (case parse_bill_path fname of
        None \<Rightarrow> (Inl AttributeError, s)
      | Some m \<Rightarrow>
          (case bill_of_path env m s of
             Inl e \<Rightarrow> if e = DoesNotExist ''Bill'' then (Inr None, s) else (Inl e, s)
           | Inr b \<Rightarrow>
               (case m of (g1, g2, g3) \<Rightarrow>
                 (let textfile = ''data/us/bills.text/'' @ g1 @ ''/'' @ g2 @ ''/'' @ g2 @ g3 @ ''.txt'' in
                  if (\<not> disable_indexing opts \<and> \<not> disable_events opts)
                     \<and> map_of fs textfile \<noteq> None \<and> is_changed fs textfile s
                  then bindM (save_file fs textfile) (\<lambda>_. returnM (Some (seen @ [bill_id b])))
                         (s\<lparr>calls := calls s @ [IndexUpdate (bill_id b), CreateEvents (bill_id b)]\<rparr>)
                  else (Inr (Some (seen @ [bill_id b])), s)))))"

text \<open>
  Lines 320-322: the major actions, from the children of \<open>actions\<close> that carry a
  \<open>state\<close> attribute. \<open>string(@a)\<close> of a missing attribute and \<open>string(text)\<close> without
  a \<open>text\<close> child are the empty string.
\<close>

fun major_actions_of :: "env \<Rightarrow> node list \<Rightarrow> error + (int \<times> nat \<times> string) list" where
  "major_actions_of env [] = Inr []"
| "major_actions_of env (axn # rest) =
     bindS (parse_datetime env (Some (case get_attr axn ''datetime'' of None \<Rightarrow> [] | Some v \<Rightarrow> v)))
       (\<lambda>d. bindS (BillStatus_by_xml_code env (get_attr axn ''state''))
         (\<lambda>st. bindS (major_actions_of env rest)
           (\<lambda>acts. Inr ((d, st,
               (case xpath1 axn ''text'' of [] \<Rightarrow> []
                | t # _ \<Rightarrow> (case node_text t of None \<Rightarrow> [] | Some x \<Rightarrow> x))) # acts))))"

text \<open>Lines 311-328: the body of the loop over \<open>tree.xpath('/bill')\<close>.\<close>

definition reconcile_node :: "env \<Rightarrow> options \<Rightarrow> node \<Rightarrow> node \<Rightarrow> nat option list \<Rightarrow> (nat option list) M" where
  "reconcile_node env opts tree nd seen =
     bindM (process env Bill_new nd) (\<lambda>b.
     bindM (liftM (major_actions_of env
              (filter (\<lambda>a. get_attr a ''state'' \<noteq> None) (concat (map children (xpath1 tree ''actions'')))))) (\<lambda>acts.
     bindM (\<lambda>s. case Bill_save (b\<lparr>major_actions := acts\<rparr>) s of (b', s') \<Rightarrow> (Inr b', s')) (\<lambda>b'.
     (\<lambda>s. (Inr (seen @ [bill_id b']),
            s\<lparr>calls := calls s
                 @ (if disable_indexing opts then [] else [IndexUpdate (bill_id b')])
                 @ (if disable_events opts then [] else [CreateEvents (bill_id b')])\<rparr>)))))"

fun reconcile_nodes :: "env \<Rightarrow> options \<Rightarrow> node \<Rightarrow> node list \<Rightarrow> nat option list \<Rightarrow> (nat option list) M" where
  "reconcile_nodes env opts tree [] seen s = (Inr seen, s)"
| "reconcile_nodes env opts tree (nd # rest) seen s =
     (case reconcile_node env opts tree nd seen s of
        (Inl e, s1) \<Rightarrow> (Inl e, s1)
      | (Inr seen1, s1) \<Rightarrow> reconcile_nodes env opts tree rest seen1 s1)"

text \<open>Lines 305-331: the file is parsed, reconciled and recorded as seen.\<close>

definition parse_and_reconcile :: "env \<Rightarrow> options \<Rightarrow> filesystem \<Rightarrow> string \<Rightarrow> nat option list \<Rightarrow> (nat option list) M" where
  "parse_and_reconcile env opts fs fname seen =
     bindM (liftM (etree_parse fs fname)) (\<lambda>tree.
     bindM (reconcile_nodes env opts tree (if tag tree = ''bill'' then [tree] else []) seen) (\<lambda>seen1.
     bindM (save_file fs fname) (\<lambda>_. returnM seen1)))"

text \<open>Lines 284-331: one turn of the loop over the files.\<close>

definition bill_file_step :: "env \<Rightarrow> options \<Rightarrow> filesystem \<Rightarrow> string \<Rightarrow> nat option list \<Rightarrow> (nat option list) M" where
  "bill_file_step env opts fs fname seen s =
     (if \<not> is_changed fs fname s \<and> \<not> force opts
      then (case skip_path env opts fs fname seen s of
              (Inl e, s1) \<Rightarrow> (Inl e, s1)
            | (Inr (Some seen1), s1) \<Rightarrow> (Inr seen1, s1)
            | (Inr None, s1) \<Rightarrow> parse_and_reconcile env opts fs fname seen s1)
      else parse_and_reconcile env opts fs fname seen s)"

fun bills_loop :: "env \<Rightarrow> options \<Rightarrow> filesystem \<Rightarrow> string list \<Rightarrow> nat option list \<Rightarrow> (nat option list) M" where
  "bills_loop env opts fs [] seen s = (Inr seen, s)"
| "bills_loop env opts fs (fname # rest) seen s =
     (case bill_file_step env opts fs fname seen s of
        (Inl e, s1) \<Rightarrow> (Inl e, s1)
      | (Inr seen1, s1) \<Rightarrow> bills_loop env opts fs rest seen1 s1)"

text \<open>
  \<open>main\<close> up to line 331: the terms, then the bills found by \<open>glob\<close> and kept by the
  path filter (\<open>fnames\<close>). The two scrapers that follow (lines 338-391) read web pages and
  are outside of this development.
\<close>

definition main :: "env \<Rightarrow> options \<Rightarrow> filesystem \<Rightarrow> string list \<Rightarrow> (nat option list) M" where
  "main env opts fs fnames =
     bindM (main_terms env fs) (\<lambda>_. bills_loop env opts fs fnames [])"

section \<open>Notions used in the statements\<close>

text \<open>
  \<open>process\<close> in two parts: the fields read from the document (lines 66-70), and the
  writes (lines 72-83).
\<close>

definition process_fields :: "env \<Rightarrow> bill \<Rightarrow> node \<Rightarrow> bill M" where
  "process_fields env obj0 nd =
     bindM (liftM (BillProcessor_attributes env obj0 nd)) (\<lambda>obj1.
     bindM (liftM (process_titles env obj1 nd)) (\<lambda>obj2.
     bindM (liftM (process_introduced env obj2 nd)) (\<lambda>obj3.
     bindM (process_sponsor env obj3 nd) (\<lambda>obj4.
     liftM (process_current_status env obj4 nd)))))"

definition process_store :: "env \<Rightarrow> bill \<Rightarrow> node \<Rightarrow> bill M" where
  "process_store env obj5 nd =
     bindM (adopt_id obj5) (\<lambda>obj6.
     bindM (\<lambda>s. case Bill_save obj6 s of (obj7, s') \<Rightarrow> (Inr obj7, s')) (\<lambda>obj.
     bindM (process_committees obj nd) (\<lambda>_.
     bindM (process_terms obj nd (congress obj)) (\<lambda>_.
     bindM (process_consponsors env obj nd) (\<lambda>_.
     bindM (process_relatedbills env obj nd) (\<lambda>_.
     returnM obj))))))"

text \<open>
  A bill document that lacks a required attribute (type, session, number) or a required
  element (\<open>introduced\<close>, \<open>state\<close>).
\<close>

definition missing_required :: "node \<Rightarrow> bool" where
  "missing_required nd =
     (get_attr nd ''type'' = None \<or> get_attr nd ''session'' = None \<or> get_attr nd ''number'' = None
      \<or> xpath1 nd ''introduced'' = [] \<or> xpath1 nd ''state'' = [])"

text \<open>
  The rows of the related-bill references that resolve: one row for each reference, in
  document order, whose query returns a bill.
\<close>

definition resolved_rows :: "env \<Rightarrow> bill \<Rightarrow> node list \<Rightarrow> state \<Rightarrow> relatedbill list" where
  "resolved_rows env obj refs s =
     concat (map (\<lambda>subnode. case related_lookup env subnode s of
                     Inl e \<Rightarrow> []
                   | Inr b \<Rightarrow> [\<lparr>rb_bill = bill_id obj, related_bill = bill_id b,
                                relation = get_attr subnode ''relation''\<rparr>]) refs)"

text \<open>
  The primary key of the table of bills: every stored bill has an id and no two stored
  bills share one.
\<close>

definition wf_bills :: "state \<Rightarrow> bool" where
  "wf_bills s = (distinct (map bill_id (bills s)) \<and> None \<notin> set (map bill_id (bills s)))"

text \<open>\<open>same_key a b\<close>: the bill \<open>b\<close> has the natural key of \<open>a\<close>.\<close>

definition same_key :: "bill \<Rightarrow> bill \<Rightarrow> bool" where
  "same_key a b = (congress b = congress a \<and> bill_type b = bill_type a \<and> number b = number a)"

text \<open>
  What the two caches answer from: the cache when it is filled, and otherwise what the
  next lookup loads from the table. The view of a state is its persisted part together
  with these two; the log, the collaborator calls and the moment at which a cache is
  loaded are not part of it.
\<close>

definition eff_pc :: "state \<Rightarrow> (int \<times> person) list" where
  "eff_pc s = (if PERSON_CACHE s = [] then dict_of (map (\<lambda>x. (person_pk x, x)) (persons s))
               else PERSON_CACHE s)"

definition eff_tc :: "state \<Rightarrow> ((TermType \<times> string) \<times> billterm) list" where
  "eff_tc s = (if TERM_CACHE s = []
               then dict_of (map (\<lambda>t. ((term_type t, normalize_name (name t)), t)) (billterms s))
               else TERM_CACHE s)"

definition view :: "state \<Rightarrow>
    (person list \<times> committee list \<times> billterm list \<times> (nat option \<times> nat option) list \<times> bill list \<times>
     (nat option \<times> nat) list \<times> (nat option \<times> nat option) list \<times> cosponsor list \<times>
     relatedbill list \<times> (string \<times> nat) list)
    \<times> (int \<times> person) list \<times> ((TermType \<times> string) \<times> billterm) list" where
  "view s = (persisted s, eff_pc s, eff_tc s)"

text \<open>The results of \<open>get_person\<close> and \<open>get_term\<close>, as functions of what the cache answers from.\<close>

definition gp_res :: "(int \<times> person) list \<Rightarrow> string option \<Rightarrow> error + person" where
  "gp_res c pk = (case py_int pk of Inl e \<Rightarrow> Inl e
     | Inr k \<Rightarrow> (case map_of c k of None \<Rightarrow> Inl KeyError | Some p \<Rightarrow> Inr p))"

definition gt_res :: "((TermType \<times> string) \<times> billterm) list \<Rightarrow> string option \<Rightarrow> int option \<Rightarrow> error + billterm" where
  "gt_res c nm cg = (case nm of None \<Rightarrow> Inl TypeError
     | Some n \<Rightarrow> (case map_of c (case cg of None \<Rightarrow> TermType_old
                | Some k \<Rightarrow> if 111 \<le> k then TermType_new else TermType_old, normalize_name n) of
               None \<Rightarrow> Inl KeyError | Some t \<Rightarrow> Inr t))"

text \<open>
  \<open>up_to upd s s'\<close>: the states \<open>s\<close> and \<open>s'\<close> have the same view once the field written
  by \<open>upd\<close> is set to the same value in both.
\<close>

definition up_to :: "(('a \<Rightarrow> 'a) \<Rightarrow> state \<Rightarrow> state) \<Rightarrow> state \<Rightarrow> state \<Rightarrow> bool" where
  "up_to upd s s' = (\<forall>X. view (upd (\<lambda>_. X) s') = view (upd (\<lambda>_. X) s))"

text \<open>
  The loop of \<open>process_consponsors\<close> on the table of cosponsors alone: \<open>cos_resolve\<close> is
  what one cosponsor node asks to be stored (the row that \<open>get_or_create\<close> would create),
  \<open>cos_upsert\<close> is the effect of \<open>get_or_create\<close> and the conditional \<open>save()\<close> on the
  table, \<open>cos_run\<close> the loop. \<open>touch a\<close> writes the dates of \<open>a\<close> into a row of the same
  person and bill, and \<open>touch_all\<close> does so for every node in turn.
\<close>

definition cos_resolve :: "env \<Rightarrow> bill \<Rightarrow> (int \<times> person) list \<Rightarrow> node \<Rightarrow> error + cosponsor" where
  "cos_resolve env ob c subnode =
     bindS (gp_res c (get_attr subnode ''id'')) (\<lambda>p.
     bindS (parse_datetime env (get_attr subnode ''joined'')) (\<lambda>j.
     bindS (parse_withdrawn env (get_attr subnode ''withdrawn'')) (\<lambda>w.
     bindS (get_role_at_date env p (Some j)) (\<lambda>r.
     Inr \<lparr>cos_person = person_pk p, cos_bill = bill_id ob, joined = j, withdrawn = w, role = r\<rparr>))))"

definition matches :: "cosponsor \<Rightarrow> cosponsor \<Rightarrow> bool" where
  "matches a x = (cos_person x = cos_person a \<and> cos_bill x = cos_bill a)"

definition touch :: "cosponsor \<Rightarrow> cosponsor \<Rightarrow> cosponsor" where
  "touch a x = (if matches a x then x\<lparr>joined := joined a, withdrawn := withdrawn a\<rparr> else x)"

definition cos_upsert :: "cosponsor \<Rightarrow> cosponsor list \<Rightarrow> error + cosponsor list" where
  "cos_upsert a T =
     (case filter (matches a) T of
        [] \<Rightarrow> Inr (T @ [a])
      | [x] \<Rightarrow> Inr (if joined x \<noteq> joined a \<or> withdrawn x \<noteq> withdrawn a
                   then map (\<lambda>c. if cos_person c = cos_person x \<and> cos_bill c = cos_bill x
                                  then x\<lparr>joined := joined a, withdrawn := withdrawn a\<rparr> else c) T
                   else T)
      | _ \<Rightarrow> Inl (MultipleObjectsReturned ''Cosponsor''))"

fun cos_run :: "env \<Rightarrow> bill \<Rightarrow> (int \<times> person) list \<Rightarrow> node list \<Rightarrow> cosponsor list \<Rightarrow> (error + unit) \<times> cosponsor list" where
  "cos_run env ob c [] T = (Inr (), T)"
| "cos_run env ob c (n # ns) T =
     (case cos_resolve env ob c n of
        Inl e \<Rightarrow> (Inl e, T)
      | Inr a \<Rightarrow> (case cos_upsert a T of
                    Inl e \<Rightarrow> (Inl e, T)
                  | Inr T1 \<Rightarrow> cos_run env ob c ns T1))"

definition touch_all :: "env \<Rightarrow> bill \<Rightarrow> (int \<times> person) list \<Rightarrow> node list \<Rightarrow> cosponsor \<Rightarrow> cosponsor" where
  "touch_all env ob c ns x =
     fold (\<lambda>n y. case cos_resolve env ob c n of Inl e \<Rightarrow> y | Inr a \<Rightarrow> touch a y) ns x"

section \<open>Concrete inputs\<close>

definition ex_env :: env where
  "ex_env = \<lparr>BillType_by_xml_code =
       (\<lambda>v. if v = Some ''h'' then Inr 3 else if v = Some ''s'' then Inr 2 else Inl ValueError),
     BillStatus_by_xml_code =
       (\<lambda>v. if v = Some ''INTRODUCED'' then Inr 1 else if v = Some ''REFERRED'' then Inr 2
            else Inl ValueError),
     parse_datetime = (\<lambda>v. case v of None \<Rightarrow> Inl TypeError | Some x \<Rightarrow> py_int_str x),
     get_primary_bill_title =
       (\<lambda>b ts. case ts of [] \<Rightarrow> Inr ''No Title'' | t # _ \<Rightarrow> Inr (str_of (snd (snd t)))),
     get_role_at_date = (\<lambda>p d. Inr None),
     BillTerm_unique = True\<rparr>"

definition ex_state :: state where
  "ex_state = \<lparr>persons = [\<lparr>person_pk = 400001, person_name = ''Smith''\<rparr>], committees = [],
     billterms = [], subterms = [], bills = [], bill_committees = [], bill_terms = [],
     cosponsors = [], relatedbills = [], files = [], PERSON_CACHE = [], TERM_CACHE = [],
     logged = [], calls = []\<rparr>"

definition ex_opts :: options where
  "ex_opts = \<lparr>force = False, disable_indexing = False, disable_events = False\<rparr>"

definition doc_unknown_sponsor :: node where
  "doc_unknown_sponsor =
     Node ''bill'' [(''type'', ''h''), (''session'', ''111''), (''number'', ''1'')] None
       [Node ''sponsor'' [(''id'', ''999'')] None []]"

definition doc_no_sponsor :: node where
  "doc_no_sponsor =
     Node ''bill'' [(''type'', ''h''), (''session'', ''111''), (''number'', ''1'')] None []"

definition doc_sponsor_no_id :: node where
  "doc_sponsor_no_id =
     Node ''bill'' [(''type'', ''h''), (''session'', ''111''), (''number'', ''1'')] None
       [Node ''sponsor'' [] None []]"

definition doc_unknown_cosponsor :: node where
  "doc_unknown_cosponsor =
     Node ''bill'' [(''type'', ''h''), (''session'', ''111''), (''number'', ''1'')] None
       [Node ''cosponsors'' [] None
          [Node ''cosponsor'' [(''id'', ''999''), (''joined'', ''20'')] None [],
           Node ''cosponsor'' [(''id'', ''400001''), (''joined'', ''21'')] None []]]"

definition doc_hr1 :: node where
  "doc_hr1 =
     Node ''bill'' [(''type'', ''h''), (''session'', ''111''), (''number'', ''1'')] None
       [Node ''state'' [(''datetime'', ''1231'')] (Some ''INTRODUCED'') [],
        Node ''introduced'' [(''datetime'', ''1230'')] None [],
        Node ''titles'' [] None
          [Node ''title'' [(''type'', ''official''), (''as'', ''introduced'')] (Some ''A bill'') []],
        Node ''sponsor'' [(''id'', ''400001'')] None [],
        Node ''cosponsors'' [] None
          [Node ''cosponsor'' [(''id'', ''400001''), (''joined'', ''1232'')] None []],
        Node ''relatedbills'' [] None
          [Node ''bill'' [(''type'', ''h''), (''session'', ''111''), (''number'', ''1''),
             (''relation'', ''self'')] None [],
           Node ''bill'' [(''type'', ''s''), (''session'', ''111''), (''number'', ''7''),
             (''relation'', ''identical'')] None []],
        Node ''actions'' [] None
          [Node ''action'' [(''datetime'', ''1230''), (''state'', ''REFERRED'')] None
             [Node ''text'' [] (Some ''Referred'') []]]]"

definition doc_no_number :: node where
  "doc_no_number =
     Node ''bill'' [(''type'', ''h''), (''session'', ''111'')] None
       [Node ''state'' [(''datetime'', ''1231'')] (Some ''INTRODUCED'') [],
        Node ''introduced'' [(''datetime'', ''1230'')] None []]"

definition ex_fs :: filesystem where
  "ex_fs = [(''data/us/111/bills/h2.xml'', \<lparr>signature = 5, content = Some doc_no_number\<rparr>),
            (''data/us/111/bills/h1.xml'', \<lparr>signature = 7, content = Some doc_hr1\<rparr>)]"

definition ex_terms_fs :: filesystem where
  "ex_terms_fs =
     [(''data/us/liv.xml'', \<lparr>signature = 1, content = Some (Node ''liv'' [] None [])\<rparr>),
      (''data/us/liv111.xml'', \<lparr>signature = 2, content = Some (Node ''liv'' [] None
          [Node ''top-term'' [(''value'', ''Agriculture'')] None []])\<rparr>),
      (''data/us/crsnet.xml'', \<lparr>signature = 3, content = Some (Node ''liv'' [] None
          [Node ''top-term'' [(''value'', ''Agriculture'')] None []])\<rparr>)]"

definition ex_case_fs :: filesystem where
  "ex_case_fs =
     [(''data/us/liv.xml'', \<lparr>signature = 1, content = Some (Node ''liv'' [] None [])\<rparr>),
      (''data/us/liv111.xml'', \<lparr>signature = 2, content = Some (Node ''liv'' [] None
          [Node ''top-term'' [(''value'', ''agriculture'')] None []])\<rparr>),
      (''data/us/crsnet.xml'', \<lparr>signature = 3, content = Some (Node ''liv'' [] None [])\<rparr>)]"

definition ex_state_agri :: state where
  "ex_state_agri = ex_state\<lparr>billterms := [\<lparr>term_id = Some 1, term_type = TermType_new, name = ''Agriculture''\<rparr>]\<rparr>"

definition doc_related :: node where
  "doc_related =
     Node ''bill'' [(''type'', ''h''), (''session'', ''111''), (''number'', ''1'')] None
       [Node ''relatedbills'' [] None
          [Node ''bill'' [(''type'', ''s''), (''session'', ''111''), (''number'', ''7''),
             (''relation'', ''identical'')] None [],
           Node ''bill'' [(''type'', ''h''), (''session'', ''111''), (''number'', ''99''),
             (''relation'', ''unknown'')] None []]]"

definition ex_state_related :: state where
  "ex_state_related = ex_state\<lparr>
     bills := [Bill_new\<lparr>bill_id := Some 1, congress := Some 111, bill_type := Some 3, number := Some 1\<rparr>,
               Bill_new\<lparr>bill_id := Some 2, congress := Some 111, bill_type := Some 2, number := Some 7\<rparr>],
     relatedbills := [\<lparr>rb_bill = Some 1, related_bill = Some 9, relation = Some ''stale''\<rparr>,
                      \<lparr>rb_bill = Some 2, related_bill = Some 1, relation = Some ''identical''\<rparr>]\<rparr>"

definition ex_state_tracked :: state where
  "ex_state_tracked = ex_state\<lparr>files := [(''data/us/111/bills/h1.xml'', 7)]\<rparr>"

definition ex_top_term :: node where
  "ex_top_term = Node ''top-term'' [(''value'', ''Agriculture'')] None []"

definition hr1_saved :: bill where
  "hr1_saved = Bill_new\<lparr>bill_id := Some 1, congress := Some 111, bill_type := Some 3,
     number := Some 1, titles := [(Some ''official'', Some ''introduced'', Some ''A bill'')],
     title := Some ''A bill'', introduced_date := Some 1230,
     sponsor := Some \<lparr>person_pk = 400001, person_name = ''Smith''\<rparr>,
     current_status_date := Some 1231, current_status := Some 1\<rparr>"

section \<open>Evaluation and general lemmas\<close>

lemmas py_int_eval = py_int_def py_int_str_def strip_def is_space_def is_digit_def is_lower_def
  digits_to_nat_def

lemmas xml_eval = xpath1_def xpath2_def get_attr_def

lemmas process_eval = process_def BillProcessor_attributes_def Processor_process_def
  BillProcessor_set_field_def type_handler_def session_handler_def number_handler_def
  process_titles_def process_introduced_def process_sponsor_def process_sponsor_try_def
  process_current_status_def adopt_id_def Bill_objects_get_def objects_get_def Bill_save_def
  fresh_id_def process_committees_def set_committees_def process_terms_def set_terms_def
  process_consponsors_def Cosponsor_get_or_create_def Cosponsor_save_def parse_withdrawn_def
  process_relatedbills_def related_lookup_def get_person_def dict_of_def
  bindM_def bindS_def liftM_def returnM_def str_of_def Let_def

lemmas main_eval = bill_file_step_def parse_and_reconcile_def reconcile_node_def
  etree_parse_def is_changed_def save_file_def skip_path_def bill_of_path_def parse_bill_path_def

lemmas terms_eval = main_terms_def terms_file_def etree_parse_def snapshot_terms_def dict_of_def
  top_term_def sub_term_def TermProcessor_process_def Processor_process_def BillTerm_save_def
  subterms_clear_def subterms_add_def BillTerm_delete_def log_debug_def log_error_def fresh_id_def
  bindS_def Let_def

section \<open>Name normalization\<close>

lemma concat_blocks: "concat (blocks s) = s"
  by (induction s rule: blocks.induct) simp_all

lemma sub_spaces_nonspace_prefix:
  "\<forall>x \<in> set xs. \<not> is_space x \<Longrightarrow> sub_spaces (xs @ ys) = xs @ sub_spaces ys"
  by (induction xs) simp_all

lemma sub_spaces_blocks: "sub_spaces s = concat (map squeeze (blocks s))"
proof (induction s rule: blocks.induct)
  case 1
  show ?case by simp
next
  case (2 c cs)
  show ?case
  proof (cases "is_space c")
    case True
    note sp = True
    show ?thesis
    proof (cases cs)
      case Nil
      with sp show ?thesis by (simp add: squeeze_def)
    next
      case (Cons d ds)
      show ?thesis
      proof (cases "is_space d")
        case True
        with sp Cons 2(1) show ?thesis by (simp add: squeeze_def)
      next
        case False
        with sp Cons 2(1) show ?thesis by (simp add: squeeze_def)
      qed
    qed
  next
    case False
    have "sub_spaces (c # cs) = c # sub_spaces cs"
      using False by simp
    also have "cs = takeWhile (\<lambda>d. \<not> is_space d) cs @ dropWhile (\<lambda>d. \<not> is_space d) cs"
      by simp
    also have "sub_spaces (takeWhile (\<lambda>d. \<not> is_space d) cs @ dropWhile (\<lambda>d. \<not> is_space d) cs)
        = takeWhile (\<lambda>d. \<not> is_space d) cs @ sub_spaces (dropWhile (\<lambda>d. \<not> is_space d) cs)"
      by (rule sub_spaces_nonspace_prefix) (auto dest: set_takeWhileD)
    finally show ?thesis
      using False 2(2) by (simp add: squeeze_def)
  qed
qed

text \<open>
  C8 (as stated it fails): the claim says every run of whitespace, a lone tab included,
  becomes one space. On \<open>A<TAB>b\<close> the code returns \<open>a<TAB>b\<close>, the tab kept, where the
  claim's normalization gives \<open>a b\<close>.
\<close>

theorem normalize_name_lone_tab_counterexample:
  "normalize_name [CHR ''A'', CHR 0x09, CHR ''b''] = [CHR ''a'', CHR 0x09, CHR ''b'']
   \<and> normalize_name_spec [CHR ''A'', CHR 0x09, CHR ''b''] = ''a b''
   \<and> normalize_name [CHR ''A'', CHR 0x09, CHR ''b'']
      \<noteq> normalize_name_spec [CHR ''A'', CHR 0x09, CHR ''b'']"
  by (simp add: normalize_name_def normalize_name_spec_def lower_def lower_char_def
      is_space_def is_upper_def char_of_def bit_nat_def)

text \<open>
  C8 (amended): \<open>normalize_name\<close> cuts the string into its maximal blocks, replaces
  every whitespace block of two or more characters by one space, leaves every other
  block (a lone whitespace character included) as it is, and lowercases the result.
\<close>

theorem normalize_name_blocks:
  "normalize_name s = lower (concat (map squeeze (blocks s)))"
  by (simp add: normalize_name_def sub_spaces_blocks)


section \<open>Sponsor and cosponsors\<close>

text \<open>
  C3 (as stated it fails): a sponsor node whose id is present and numeric but is not the
  key of any person makes \<open>process_sponsor\<close> raise KeyError; the sponsor does not
  become null.
\<close>

theorem process_sponsor_unresolved_counterexample:
  "process_sponsor ex_env Bill_new doc_unknown_sponsor ex_state
     = (Inl KeyError,
        ex_state\<lparr>PERSON_CACHE := [(400001, \<lparr>person_pk = 400001, person_name = ''Smith''\<rparr>)]\<rparr>)"
  by (simp add: process_sponsor_def process_sponsor_try_def doc_unknown_sponsor_def xml_eval
      get_person_def py_int_eval ex_state_def dict_of_def Let_def)

text \<open>
  C3 (amended): when the document has no sponsor node, or the first sponsor node has no id
  attribute, \<open>process_sponsor\<close> raises nothing, leaves the state as it is and sets
  the sponsor to null.
\<close>

theorem process_sponsor_absent_or_no_id:
  assumes "case xpath1 nd ''sponsor'' of [] \<Rightarrow> True | elem # _ \<Rightarrow> get_attr elem ''id'' = None"
  shows "process_sponsor env obj nd s = (Inr (obj\<lparr>sponsor := None\<rparr>), s)"
  using assms
  by (auto simp: process_sponsor_def process_sponsor_try_def get_person_def py_int_def
      split: list.splits)

theorem process_sponsor_absent_or_no_id_witness:
  "process_sponsor ex_env Bill_new doc_no_sponsor ex_state = (Inr (Bill_new\<lparr>sponsor := None\<rparr>), ex_state)
   \<and> process_sponsor ex_env Bill_new doc_sponsor_no_id ex_state
       = (Inr (Bill_new\<lparr>sponsor := None\<rparr>), ex_state)"
  using process_sponsor_absent_or_no_id [of doc_no_sponsor ex_env Bill_new ex_state]
    process_sponsor_absent_or_no_id [of doc_sponsor_no_id ex_env Bill_new ex_state]
  by (simp add: doc_no_sponsor_def doc_sponsor_no_id_def xml_eval)

text \<open>
  C4 (the code departs from the claim): the first cosponsor of the document has an id
  that is not the key of any person. \<open>get_person\<close> raises KeyError, the handler catches
  only IndexError, and \<open>process_consponsors\<close> raises: the second cosponsor, who would
  resolve, is never reached and no row is written.
\<close>

theorem process_consponsors_unresolved_raises:
  "process_consponsors ex_env (Bill_new\<lparr>bill_id := Some 1\<rparr>) doc_unknown_cosponsor ex_state
     = (Inl KeyError,
        ex_state\<lparr>PERSON_CACHE := [(400001, \<lparr>person_pk = 400001, person_name = ''Smith''\<rparr>)]\<rparr>)"
  by (simp add: process_consponsors_def doc_unknown_cosponsor_def xml_eval
      get_person_def py_int_eval ex_state_def dict_of_def Let_def)

section \<open>Related bills\<close>

lemma related_lookup_relatedbills_upd [simp]:
  "related_lookup env n (s\<lparr>relatedbills := x\<rparr>) = related_lookup env n s"
  by (simp add: related_lookup_def Bill_objects_get_def)

lemma resolved_rows_relatedbills_upd [simp]:
  "resolved_rows env obj refs (s\<lparr>relatedbills := x\<rparr>) = resolved_rows env obj refs s"
  by (simp add: resolved_rows_def)

lemma relatedbills_loop_rows:
  "\<forall>n \<in> set refs. related_lookup env n s = Inl (DoesNotExist ''Bill'') \<or> (\<exists>b. related_lookup env n s = Inr b)
   \<Longrightarrow> relatedbills_loop env obj refs s
       = (Inr (), s\<lparr>relatedbills := relatedbills s @ resolved_rows env obj refs s\<rparr>)"
proof (induction refs arbitrary: s)
  case Nil
  show ?case by (simp add: resolved_rows_def)
next
  case (Cons n refs)
  from Cons.prems
  have rest: "\<forall>m \<in> set refs. related_lookup env m s = Inl (DoesNotExist ''Bill'')
                \<or> (\<exists>b. related_lookup env m s = Inr b)"
    by simp
  from Cons.prems
  have "related_lookup env n s = Inl (DoesNotExist ''Bill'') \<or> (\<exists>b. related_lookup env n s = Inr b)"
    by simp
  then show ?case
  proof
    assume a: "related_lookup env n s = Inl (DoesNotExist ''Bill'')"
    show ?thesis using a Cons.IH [OF rest] by (simp add: resolved_rows_def)
  next
    assume "\<exists>b. related_lookup env n s = Inr b"
    then obtain b where b: "related_lookup env n s = Inr b" by blast
    let ?s1 = "s\<lparr>relatedbills := relatedbills s @
                 [\<lparr>rb_bill = bill_id obj, related_bill = bill_id b,
                   relation = get_attr n ''relation''\<rparr>]\<rparr>"
    have "\<forall>m \<in> set refs. related_lookup env m ?s1 = Inl (DoesNotExist ''Bill'')
            \<or> (\<exists>b. related_lookup env m ?s1 = Inr b)"
      using rest by simp
    from Cons.IH [OF this] show ?thesis using b by (simp add: resolved_rows_def)
  qed
qed

lemma rb_bill_resolved_rows: "r \<in> set (resolved_rows env obj refs s) \<Longrightarrow> rb_bill r = bill_id obj"
  by (auto simp: resolved_rows_def split: sum.splits)

text \<open>
  C9: when every related-bill reference of the document either resolves to a stored bill
  or has no target (\<open>Bill.DoesNotExist\<close>), \<open>process_relatedbills\<close> raises nothing and
  logs nothing; the rows of other bills are kept, every former row of this bill is gone,
  and the rows of this bill are exactly one row for each reference that resolves, in
  document order.
\<close>

theorem process_relatedbills_full_replace:
  assumes "\<forall>n \<in> set (xpath2 nd ''relatedbills'' ''bill'').
             related_lookup env n s = Inl (DoesNotExist ''Bill'') \<or> (\<exists>b. related_lookup env n s = Inr b)"
  shows "process_relatedbills env obj nd s
           = (Inr (), s\<lparr>relatedbills := filter (\<lambda>r. rb_bill r \<noteq> bill_id obj) (relatedbills s)
                          @ resolved_rows env obj (xpath2 nd ''relatedbills'' ''bill'') s\<rparr>)
       \<and> filter (\<lambda>r. rb_bill r = bill_id obj) (relatedbills (snd (process_relatedbills env obj nd s)))
           = resolved_rows env obj (xpath2 nd ''relatedbills'' ''bill'') s
       \<and> logged (snd (process_relatedbills env obj nd s)) = logged s"
proof -
  let ?refs = "xpath2 nd ''relatedbills'' ''bill''"
  let ?s0 = "s\<lparr>relatedbills := filter (\<lambda>r. rb_bill r \<noteq> bill_id obj) (relatedbills s)\<rparr>"
  have "\<forall>n \<in> set ?refs. related_lookup env n ?s0 = Inl (DoesNotExist ''Bill'')
          \<or> (\<exists>b. related_lookup env n ?s0 = Inr b)"
    using assms by simp
  from relatedbills_loop_rows [OF this, of obj]
  have run: "process_relatedbills env obj nd s
           = (Inr (), s\<lparr>relatedbills := filter (\<lambda>r. rb_bill r \<noteq> bill_id obj) (relatedbills s)
                          @ resolved_rows env obj ?refs s\<rparr>)"
    by (simp add: process_relatedbills_def)
  have "filter (\<lambda>r. rb_bill r = bill_id obj) (resolved_rows env obj ?refs s) = resolved_rows env obj ?refs s"
    by (simp add: rb_bill_resolved_rows)
  with run show ?thesis by simp
qed

theorem process_relatedbills_full_replace_witness:
  "process_relatedbills ex_env (Bill_new\<lparr>bill_id := Some 1\<rparr>) doc_related ex_state_related
     = (Inr (), ex_state_related\<lparr>relatedbills :=
          [\<lparr>rb_bill = Some 2, related_bill = Some 1, relation = Some ''identical''\<rparr>,
           \<lparr>rb_bill = Some 1, related_bill = Some 2, relation = Some ''identical''\<rparr>]\<rparr>)"
proof -
  have h: "\<forall>n \<in> set (xpath2 doc_related ''relatedbills'' ''bill'').
             related_lookup ex_env n ex_state_related = Inl (DoesNotExist ''Bill'')
             \<or> (\<exists>b. related_lookup ex_env n ex_state_related = Inr b)"
    by (simp add: doc_related_def xml_eval related_lookup_def ex_env_def bindS_def py_int_eval
        Bill_objects_get_def objects_get_def ex_state_related_def ex_state_def Bill_new_def Let_def)
  from process_relatedbills_full_replace [OF h, of "Bill_new\<lparr>bill_id := Some 1\<rparr>"]
  show ?thesis
    by (simp add: doc_related_def xml_eval related_lookup_def resolved_rows_def ex_env_def bindS_def
        py_int_eval Bill_objects_get_def objects_get_def ex_state_related_def ex_state_def
        Bill_new_def Let_def)
qed

section \<open>The file loop\<close>

lemma process_split:
  "process env obj0 nd s = bindM (process_fields env obj0 nd) (\<lambda>obj5. process_store env obj5 nd) s"
  by (simp add: process_def process_fields_def process_store_def bindM_def liftM_def
      split: prod.splits sum.splits)

lemma get_person_frame: "get_person pk s = (r, s1) \<Longrightarrow> s1 = s\<lparr>PERSON_CACHE := PERSON_CACHE s1\<rparr>"
  by (auto simp: get_person_def Let_def split: sum.splits option.splits if_splits)

lemma process_sponsor_frame:
  "process_sponsor env obj nd s = (r, s1) \<Longrightarrow> s1 = s\<lparr>PERSON_CACHE := PERSON_CACHE s1\<rparr>"
  by (auto simp: process_sponsor_def process_sponsor_try_def Let_def
      split: list.splits prod.splits sum.splits if_splits dest: get_person_frame)

lemma process_fields_frame:
  "process_fields env obj nd s = (r, s1) \<Longrightarrow> s1 = s\<lparr>PERSON_CACHE := PERSON_CACHE s1\<rparr>"
  by (auto simp: process_fields_def bindM_def liftM_def
      split: prod.splits sum.splits dest: process_sponsor_frame)

lemma missing_attribute_error:
  "get_attr nd ''type'' = None \<or> get_attr nd ''session'' = None \<or> get_attr nd ''number'' = None
   \<Longrightarrow> \<exists>k. BillProcessor_attributes env obj nd = Inl (MissingRequiredAttribute k)"
  by (auto simp: BillProcessor_attributes_def Processor_process_def split: list.splits)

lemma missing_required_fields_fail:
  assumes "missing_required nd"
  shows "\<exists>e s1. process_fields env obj nd s = (Inl e, s1)"
proof (cases "get_attr nd ''type'' = None \<or> get_attr nd ''session'' = None \<or> get_attr nd ''number'' = None")
  case True
  from missing_attribute_error [OF this] obtain k
    where "BillProcessor_attributes env obj nd = Inl (MissingRequiredAttribute k)" by blast
  then show ?thesis by (simp add: process_fields_def bindM_def liftM_def)
next
  case False
  with assms have "xpath1 nd ''introduced'' = [] \<or> xpath1 nd ''state'' = []"
    by (auto simp: missing_required_def)
  then show ?thesis
    by (auto simp: process_fields_def bindM_def liftM_def process_introduced_def
        process_current_status_def split: prod.splits sum.splits)
qed

lemma persisted_cache_upd [simp]: "persisted (s\<lparr>PERSON_CACHE := c\<rparr>) = persisted s"
  by (simp add: persisted_def)

lemma reconcile_node_force [simp]:
  "reconcile_node env (opts\<lparr>force := b\<rparr>) tree nd seen = reconcile_node env opts tree nd seen"
  by (simp add: reconcile_node_def)

lemma reconcile_nodes_force_applied:
  "reconcile_nodes env (opts\<lparr>force := b\<rparr>) tree nds seen s = reconcile_nodes env opts tree nds seen s"
  by (induction nds arbitrary: seen s) (simp_all split: prod.split sum.split)

lemma reconcile_nodes_force [simp]:
  "reconcile_nodes env (opts\<lparr>force := b\<rparr>) tree nds seen = reconcile_nodes env opts tree nds seen"
  by (rule ext) (rule reconcile_nodes_force_applied)

lemma parse_and_reconcile_force [simp]:
  "parse_and_reconcile env (opts\<lparr>force := b\<rparr>) fs fname seen s
     = parse_and_reconcile env opts fs fname seen s"
  by (simp add: parse_and_reconcile_def)

text \<open>
  C5 (as stated it fails): the first file of the run lacks the required attribute
  \<open>number\<close>, the second is a complete document. The loop over the files raises at the
  first file and the second is never processed: no bill is stored and no change record is
  written, although the second file alone is reconciled without error.
\<close>

theorem run_stops_at_bad_document_counterexample:
  "bills_loop ex_env ex_opts ex_fs [''data/us/111/bills/h2.xml'', ''data/us/111/bills/h1.xml''] [] ex_state
     = (Inl (MissingRequiredAttribute ''number''), ex_state)
   \<and> fst (bills_loop ex_env ex_opts ex_fs [''data/us/111/bills/h1.xml''] [] ex_state) = Inr [Some 1]"
  by (simp add: main_eval process_eval xml_eval py_int_eval ex_env_def ex_opts_def ex_fs_def
      ex_state_def doc_no_number_def doc_hr1_def Bill_new_def)

text \<open>
  C5 (amended): when a bill document that is parsed (the file changed, or the run is
  forced) lacks a required attribute or element, an error is raised before anything is
  written: every table, the change records included, is as before. The loop over the
  files does not catch the error: the run stops at that file with the same error and the
  same state, whatever files remain.
\<close>

theorem missing_required_aborts_run:
  assumes "missing_required root" and "etree_parse fs fname = Inr root" and "tag root = ''bill''"
    and "force opts \<or> is_changed fs fname s"
  shows "\<exists>e s'. bill_file_step env opts fs fname seen s = (Inl e, s')
           \<and> persisted s' = persisted s
           \<and> bills_loop env opts fs (fname # rest) seen s = (Inl e, s')"
proof -
  from missing_required_fields_fail [OF assms(1)] obtain e s1
    where pf: "process_fields env Bill_new root s = (Inl e, s1)" by blast
  from process_fields_frame [OF pf] have s1: "s1 = s\<lparr>PERSON_CACHE := PERSON_CACHE s1\<rparr>" .
  have pr: "process env Bill_new root s = (Inl e, s1)"
    using pf by (simp add: process_split bindM_def)
  have step: "bill_file_step env opts fs fname seen s = (Inl e, s1)"
    using assms(2,3,4) pr
    by (auto simp: bill_file_step_def parse_and_reconcile_def reconcile_node_def bindM_def liftM_def)
  have "persisted s1 = persisted s"
    by (subst s1) simp
  with step show ?thesis by simp
qed

theorem missing_required_aborts_run_witness:
  "missing_required doc_no_number
   \<and> etree_parse ex_fs ''data/us/111/bills/h2.xml'' = Inr doc_no_number
   \<and> is_changed ex_fs ''data/us/111/bills/h2.xml'' ex_state
   \<and> (\<exists>e s'. bill_file_step ex_env ex_opts ex_fs ''data/us/111/bills/h2.xml'' [] ex_state = (Inl e, s')
         \<and> persisted s' = persisted ex_state
         \<and> bills_loop ex_env ex_opts ex_fs [''data/us/111/bills/h2.xml'', ''data/us/111/bills/h1.xml''] [] ex_state
             = (Inl e, s'))"
proof -
  have h1: "missing_required doc_no_number"
    by (simp add: missing_required_def doc_no_number_def xml_eval)
  have h2: "etree_parse ex_fs ''data/us/111/bills/h2.xml'' = Inr doc_no_number"
    by (simp add: etree_parse_def ex_fs_def)
  have h3: "tag doc_no_number = ''bill''"
    by (simp add: doc_no_number_def)
  have h4: "is_changed ex_fs ''data/us/111/bills/h2.xml'' ex_state"
    by (simp add: is_changed_def ex_state_def)
  from h4 have h4': "force ex_opts \<or> is_changed ex_fs ''data/us/111/bills/h2.xml'' ex_state" by simp
  from missing_required_aborts_run [OF h1 h2 h3 h4', of ex_env "[]" "[''data/us/111/bills/h1.xml'']"]
    h1 h2 h4
  show ?thesis by simp
qed

text \<open>
  C10: when the change records report the file unchanged and the run is not forced, but
  no bill is stored under the key read from the path, the turn of the loop is the full
  parse and reconciliation of the file, the same as in a forced run.
\<close>

theorem skip_path_fallback:
  assumes "\<not> is_changed fs fname s" and "\<not> force opts"
    and "parse_bill_path fname = Some m" and "bill_of_path env m s = Inl (DoesNotExist ''Bill'')"
  shows "bill_file_step env opts fs fname seen s = parse_and_reconcile env opts fs fname seen s
       \<and> bill_file_step env opts fs fname seen s
           = bill_file_step env (opts\<lparr>force := True\<rparr>) fs fname seen s"
  using assms by (simp add: bill_file_step_def skip_path_def)


theorem skip_path_fallback_witness:
  "\<not> is_changed ex_fs ''data/us/111/bills/h1.xml'' ex_state_tracked
   \<and> \<not> force ex_opts
   \<and> parse_bill_path ''data/us/111/bills/h1.xml'' = Some (''111'', ''h'', ''1'')
   \<and> bill_of_path ex_env (''111'', ''h'', ''1'') ex_state_tracked = Inl (DoesNotExist ''Bill'')
   \<and> bill_file_step ex_env ex_opts ex_fs ''data/us/111/bills/h1.xml'' [] ex_state_tracked
       = parse_and_reconcile ex_env ex_opts ex_fs ''data/us/111/bills/h1.xml'' [] ex_state_tracked
   \<and> fst (bill_file_step ex_env ex_opts ex_fs ''data/us/111/bills/h1.xml'' [] ex_state_tracked)
       = Inr [Some 1]"
proof -
  have h1: "\<not> is_changed ex_fs ''data/us/111/bills/h1.xml'' ex_state_tracked"
    by (simp add: is_changed_def ex_fs_def ex_state_tracked_def ex_state_def)
  have h2: "\<not> force ex_opts"
    by (simp add: ex_opts_def)
  have h3: "parse_bill_path ''data/us/111/bills/h1.xml'' = Some (''111'', ''h'', ''1'')"
    by (simp add: parse_bill_path_def is_digit_def is_lower_def Let_def)
  have h4: "bill_of_path ex_env (''111'', ''h'', ''1'') ex_state_tracked = Inl (DoesNotExist ''Bill'')"
    by (simp add: bill_of_path_def ex_env_def bindS_def py_int_eval Bill_objects_get_def
        objects_get_def ex_state_tracked_def ex_state_def Let_def)
  have run: "fst (parse_and_reconcile ex_env ex_opts ex_fs ''data/us/111/bills/h1.xml'' [] ex_state_tracked)
       = Inr [Some 1]"
    by (simp add: main_eval process_eval xml_eval py_int_eval ex_env_def ex_opts_def ex_fs_def
        ex_state_tracked_def ex_state_def doc_hr1_def Bill_new_def)
  from skip_path_fallback [OF h1 h2 h3 h4, of "[]"] h1 h2 h3 h4 run
  show ?thesis by simp
qed

section \<open>Terms\<close>

lemma map_of_fold_update:
  "map_of (fold (\<lambda>(k, v) d. AList.update k v d) kvs d) = map_of d ++ map_of (rev kvs)"
proof (induction kvs arbitrary: d)
  case Nil
  show ?case by simp
next
  case (Cons x kvs)
  obtain k v where x: "x = (k, v)" by (cases x)
  have "map_of (fold (\<lambda>(k, v) d. AList.update k v d) kvs (AList.update k v d))
          = map_of (AList.update k v d) ++ map_of (rev kvs)"
    by (rule Cons.IH)
  also have "\<dots> = (map_of d)(k \<mapsto> v) ++ map_of (rev kvs)"
    by (simp only: update_conv')
  also have "\<dots> = map_of d ++ map_of (rev kvs @ [(k, v)])"
    by (simp add: map_of_append)
  finally show ?case using x by simp
qed

lemma map_of_dict_of: "map_of (dict_of kvs) = map_of (rev kvs)"
  by (simp add: dict_of_def map_of_fold_update)

lemma snapshot_terms_Some:
  "map_of (snapshot_terms s) k = Some t \<Longrightarrow> t \<in> set (billterms s) \<and> k = (term_type t, name t)"
  by (auto simp: snapshot_terms_def map_of_dict_of rev_map [symmetric] dest!: map_of_SomeD)

lemma snapshot_terms_covers:
  assumes "t \<in> set (billterms s)"
  shows "map_of (snapshot_terms s) (term_type t, name t) \<noteq> None"
proof -
  from assms have "(term_type t, name t) \<in> fst ` set (rev (map (\<lambda>t. ((term_type t, name t), t)) (billterms s)))"
    by force
  then show ?thesis
    by (simp only: snapshot_terms_def map_of_dict_of map_of_eq_None_iff) simp
qed

lemma TermProcessor_process_value:
  "get_attr nd ''value'' = Some nm
   \<Longrightarrow> TermProcessor_process ty nd = Inr \<lparr>term_id = None, term_type = ty, name = nm\<rparr>"
  by (simp add: TermProcessor_process_def Processor_process_def bindS_def)

text \<open>
  C6 (the code departs from the claim): the table of terms is empty and the two files of
  the new scheme each define the top-term \<open>Agriculture\<close>. A created top-term is not
  entered in \<open>existing_terms\<close>, so the second file does not find it. Where the table
  enforces unique names the second \<open>save()\<close> raises IntegrityError inside the handler
  and the run aborts; where it does not, a second row is stored.
\<close>

theorem duplicate_top_term_across_files:
  "main_terms ex_env ex_terms_fs ex_state
     = (Inl IntegrityError,
        ex_state\<lparr>billterms := [\<lparr>term_id = Some 1, term_type = TermType_new, name = ''Agriculture''\<rparr>],
                 logged := [LogDebug ''Created Agriculture'', LogDebug ''Created Agriculture'']\<rparr>)
   \<and> billterms (snd (main_terms (ex_env\<lparr>BillTerm_unique := False\<rparr>) ex_terms_fs ex_state))
     = [\<lparr>term_id = Some 1, term_type = TermType_new, name = ''Agriculture''\<rparr>,
        \<lparr>term_id = Some 2, term_type = TermType_new, name = ''Agriculture''\<rparr>]"
  by (simp add: terms_eval xml_eval ex_env_def ex_terms_fs_def ex_state_def)

text \<open>
  C7 (as stated it fails): the stored term is \<open>Agriculture\<close> and the file names the
  top-term \<open>agriculture\<close>. The two names have the same normal form, but the stored term
  is not reused: a new term is created and the stored one, not seen, is deleted.
\<close>

theorem term_reuse_case_counterexample:
  "normalize_name ''Agriculture'' = normalize_name ''agriculture''
   \<and> billterms ex_state_agri = [\<lparr>term_id = Some 1, term_type = TermType_new, name = ''Agriculture''\<rparr>]
   \<and> billterms (snd (main_terms ex_env ex_case_fs ex_state_agri))
       = [\<lparr>term_id = Some 2, term_type = TermType_new, name = ''agriculture''\<rparr>]"
  by (simp add: terms_eval xml_eval ex_env_def ex_case_fs_def ex_state_agri_def ex_state_def
     normalize_name_def lower_def lower_char_def is_upper_def is_space_def char_of_def bit_nat_def)

text \<open>
  C7 (amended): the snapshot is keyed by the classification and the name as it is stored:
  every entry is a stored term under its own \<open>(term_type, name)\<close>, and every stored term
  has an entry. A top-term or subterm node whose \<open>value\<close> is exactly the name of an
  entry of its classification reuses that entry and marks it seen; no term is created.
\<close>

theorem term_reuse_exact_name:
  assumes "get_attr nd ''value'' = Some nm" and "map_of (existing_terms l) (ty, nm) = Some t"
  shows "top_term env ty nd l s
           = (Inr t, l\<lparr>terms_parsed := List.insert (term_id t) (terms_parsed l)\<rparr>, s)
       \<and> sub_term env ty p nd l s
           = (Inr (), l\<lparr>terms_parsed := List.insert (term_id t) (terms_parsed l)\<rparr>, subterms_add p t s)
       \<and> (\<forall>k t'. map_of (snapshot_terms s) k = Some t'
             \<longrightarrow> t' \<in> set (billterms s) \<and> k = (term_type t', name t'))
       \<and> (\<forall>t' \<in> set (billterms s). map_of (snapshot_terms s) (term_type t', name t') \<noteq> None)"
  using assms snapshot_terms_Some [of s] snapshot_terms_covers [of _ s]
  by (simp add: top_term_def sub_term_def TermProcessor_process_value)

theorem term_reuse_exact_name_witness:
  "get_attr ex_top_term ''value'' = Some ''Agriculture''
   \<and> map_of (existing_terms \<lparr>existing_terms = snapshot_terms ex_state_agri, terms_parsed = []\<rparr>)
        (TermType_new, ''Agriculture'')
       = Some \<lparr>term_id = Some 1, term_type = TermType_new, name = ''Agriculture''\<rparr>
   \<and> top_term ex_env TermType_new ex_top_term
        \<lparr>existing_terms = snapshot_terms ex_state_agri, terms_parsed = []\<rparr> ex_state_agri
       = (Inr \<lparr>term_id = Some 1, term_type = TermType_new, name = ''Agriculture''\<rparr>,
          \<lparr>existing_terms = snapshot_terms ex_state_agri, terms_parsed = [Some 1]\<rparr>, ex_state_agri)"
proof -
  have h1: "get_attr ex_top_term ''value'' = Some ''Agriculture''"
    by (simp add: ex_top_term_def get_attr_def)
  have h2: "map_of (existing_terms \<lparr>existing_terms = snapshot_terms ex_state_agri, terms_parsed = []\<rparr>)
        (TermType_new, ''Agriculture'')
       = Some \<lparr>term_id = Some 1, term_type = TermType_new, name = ''Agriculture''\<rparr>"
    by (simp add: snapshot_terms_def dict_of_def ex_state_agri_def ex_state_def)
  from term_reuse_exact_name [OF h1 h2, of ex_env ex_state_agri] h1 h2
  show ?thesis by simp
qed


section \<open>Upsert and idempotence of \<open>process\<close>\<close>

subsection \<open>Views and frames\<close>

lemma eff_pc_upd [simp]:
  "eff_pc (s\<lparr>committees := a1\<rparr>) = eff_pc s"
  "eff_pc (s\<lparr>billterms := a2\<rparr>) = eff_pc s"
  "eff_pc (s\<lparr>subterms := a3\<rparr>) = eff_pc s"
  "eff_pc (s\<lparr>bills := a4\<rparr>) = eff_pc s"
  "eff_pc (s\<lparr>bill_committees := a5\<rparr>) = eff_pc s"
  "eff_pc (s\<lparr>bill_terms := a6\<rparr>) = eff_pc s"
  "eff_pc (s\<lparr>cosponsors := a7\<rparr>) = eff_pc s"
  "eff_pc (s\<lparr>relatedbills := a8\<rparr>) = eff_pc s"
  "eff_pc (s\<lparr>files := a9\<rparr>) = eff_pc s"
  "eff_pc (s\<lparr>TERM_CACHE := a10\<rparr>) = eff_pc s"
  "eff_pc (s\<lparr>logged := a11\<rparr>) = eff_pc s"
  "eff_pc (s\<lparr>calls := a12\<rparr>) = eff_pc s"
  by (simp_all add: eff_pc_def)

lemma eff_tc_upd [simp]:
  "eff_tc (s\<lparr>committees := a1\<rparr>) = eff_tc s"
  "eff_tc (s\<lparr>persons := a2\<rparr>) = eff_tc s"
  "eff_tc (s\<lparr>subterms := a3\<rparr>) = eff_tc s"
  "eff_tc (s\<lparr>bills := a4\<rparr>) = eff_tc s"
  "eff_tc (s\<lparr>bill_committees := a5\<rparr>) = eff_tc s"
  "eff_tc (s\<lparr>bill_terms := a6\<rparr>) = eff_tc s"
  "eff_tc (s\<lparr>cosponsors := a7\<rparr>) = eff_tc s"
  "eff_tc (s\<lparr>relatedbills := a8\<rparr>) = eff_tc s"
  "eff_tc (s\<lparr>files := a9\<rparr>) = eff_tc s"
  "eff_tc (s\<lparr>PERSON_CACHE := a10\<rparr>) = eff_tc s"
  "eff_tc (s\<lparr>logged := a11\<rparr>) = eff_tc s"
  "eff_tc (s\<lparr>calls := a12\<rparr>) = eff_tc s"
  by (simp_all add: eff_tc_def)

lemma eff_pc_load [simp]:
  "eff_pc (s\<lparr>PERSON_CACHE := eff_pc s\<rparr>) = eff_pc s"
  by (simp add: eff_pc_def)

lemma eff_tc_load [simp]:
  "eff_tc (s\<lparr>TERM_CACHE := eff_tc s\<rparr>) = eff_tc s"
  by (simp add: eff_tc_def)

lemma view_upd [simp]:
  "view (s\<lparr>logged := a\<rparr>) = view s"
  "view (s\<lparr>calls := b\<rparr>) = view s"
  "view (s\<lparr>PERSON_CACHE := eff_pc s\<rparr>) = view s"
  "view (s\<lparr>TERM_CACHE := eff_tc s\<rparr>) = view s"
  by (simp_all add: view_def persisted_def)

lemma view_fields:
  "view a = view b \<Longrightarrow>
     persons a = persons b \<and> committees a = committees b \<and> billterms a = billterms b
     \<and> subterms a = subterms b \<and> bills a = bills b \<and> bill_committees a = bill_committees b
     \<and> bill_terms a = bill_terms b \<and> cosponsors a = cosponsors b
     \<and> relatedbills a = relatedbills b \<and> files a = files b
     \<and> eff_pc a = eff_pc b \<and> eff_tc a = eff_tc b \<and> persisted a = persisted b"
  by (simp add: view_def persisted_def)

lemma view_cong_upd:
  assumes "view a = view b"
  shows "view (a\<lparr>bills := x1\<rparr>) = view (b\<lparr>bills := x1\<rparr>)"
    and "view (a\<lparr>bill_committees := x2\<rparr>) = view (b\<lparr>bill_committees := x2\<rparr>)"
    and "view (a\<lparr>bill_terms := x3\<rparr>) = view (b\<lparr>bill_terms := x3\<rparr>)"
    and "view (a\<lparr>cosponsors := x4\<rparr>) = view (b\<lparr>cosponsors := x4\<rparr>)"
    and "view (a\<lparr>relatedbills := x5\<rparr>) = view (b\<lparr>relatedbills := x5\<rparr>)"
  using view_fields [OF assms] by (simp_all add: view_def persisted_def)

lemma get_person_res: "fst (get_person pk s) = gp_res (eff_pc s) pk"
  by (simp add: get_person_def gp_res_def eff_pc_def Let_def split: sum.splits option.splits)

lemma get_person_view: "get_person pk s = (r, s1) \<Longrightarrow> view s1 = view s"
proof -
  assume a: "get_person pk s = (r, s1)"
  have "s1 = s \<or> s1 = s\<lparr>PERSON_CACHE := eff_pc s\<rparr>"
    using a by (auto simp: get_person_def eff_pc_def Let_def split: sum.splits option.splits if_splits)
  then show ?thesis by auto
qed

lemma get_person_not_IndexError: "fst (get_person pk s) \<noteq> Inl IndexError"
  by (auto simp: get_person_res gp_res_def py_int_def py_int_str_def Let_def
      split: sum.splits option.splits if_splits)

lemma get_term_res: "fst (get_term nm cg s) = gt_res (eff_tc s) nm cg"
  by (simp add: get_term_def gt_res_def eff_tc_def Let_def split: option.splits)

lemma get_term_view: "get_term nm cg s = (r, s1) \<Longrightarrow> view s1 = view s"
proof -
  assume a: "get_term nm cg s = (r, s1)"
  have "s1 = s \<or> s1 = s\<lparr>TERM_CACHE := eff_tc s\<rparr>"
    using a by (auto simp: get_term_def eff_tc_def Let_def split: option.splits if_splits)
  then show ?thesis by auto
qed

lemma up_to_refl [simp]: "up_to upd s s"
  by (simp add: up_to_def)

lemma up_to_trans: "up_to upd a b \<Longrightarrow> up_to upd b c \<Longrightarrow> up_to upd a c"
  by (simp add: up_to_def)

lemma up_to_view:
  "view s' = view s \<Longrightarrow> up_to bills_update s s'"
  "view s' = view s \<Longrightarrow> up_to bill_committees_update s s'"
  "view s' = view s \<Longrightarrow> up_to bill_terms_update s s'"
  "view s' = view s \<Longrightarrow> up_to cosponsors_update s s'"
  "view s' = view s \<Longrightarrow> up_to relatedbills_update s s'"
  unfolding up_to_def by (blast intro: view_cong_upd)+

lemma up_to_upd [simp]:
  "up_to bills_update s (s\<lparr>bills := x1\<rparr>)"
  "up_to bill_committees_update s (s\<lparr>bill_committees := x2\<rparr>)"
  "up_to bill_terms_update s (s\<lparr>bill_terms := x3\<rparr>)"
  "up_to cosponsors_update s (s\<lparr>cosponsors := x4\<rparr>)"
  "up_to relatedbills_update s (s\<lparr>relatedbills := x5\<rparr>)"
  by (simp_all add: up_to_def)

lemma up_to_D:
  "up_to bills_update s s' \<Longrightarrow> view s' = view (s\<lparr>bills := bills s'\<rparr>)"
  "up_to bill_committees_update s s' \<Longrightarrow> view s' = view (s\<lparr>bill_committees := bill_committees s'\<rparr>)"
  "up_to bill_terms_update s s' \<Longrightarrow> view s' = view (s\<lparr>bill_terms := bill_terms s'\<rparr>)"
  "up_to cosponsors_update s s' \<Longrightarrow> view s' = view (s\<lparr>cosponsors := cosponsors s'\<rparr>)"
  "up_to relatedbills_update s s' \<Longrightarrow> view s' = view (s\<lparr>relatedbills := relatedbills s'\<rparr>)"
proof -
  show "up_to bills_update s s' \<Longrightarrow> view s' = view (s\<lparr>bills := bills s'\<rparr>)"
    using spec [of "\<lambda>X. view (s'\<lparr>bills := X\<rparr>) = view (s\<lparr>bills := X\<rparr>)" "bills s'"]
    by (simp add: up_to_def)
  show "up_to bill_committees_update s s' \<Longrightarrow> view s' = view (s\<lparr>bill_committees := bill_committees s'\<rparr>)"
    using spec [of "\<lambda>X. view (s'\<lparr>bill_committees := X\<rparr>) = view (s\<lparr>bill_committees := X\<rparr>)" "bill_committees s'"]
    by (simp add: up_to_def)
  show "up_to bill_terms_update s s' \<Longrightarrow> view s' = view (s\<lparr>bill_terms := bill_terms s'\<rparr>)"
    using spec [of "\<lambda>X. view (s'\<lparr>bill_terms := X\<rparr>) = view (s\<lparr>bill_terms := X\<rparr>)" "bill_terms s'"]
    by (simp add: up_to_def)
  show "up_to cosponsors_update s s' \<Longrightarrow> view s' = view (s\<lparr>cosponsors := cosponsors s'\<rparr>)"
    using spec [of "\<lambda>X. view (s'\<lparr>cosponsors := X\<rparr>) = view (s\<lparr>cosponsors := X\<rparr>)" "cosponsors s'"]
    by (simp add: up_to_def)
  show "up_to relatedbills_update s s' \<Longrightarrow> view s' = view (s\<lparr>relatedbills := relatedbills s'\<rparr>)"
    using spec [of "\<lambda>X. view (s'\<lparr>relatedbills := X\<rparr>) = view (s\<lparr>relatedbills := X\<rparr>)" "relatedbills s'"]
    by (simp add: up_to_def)
qed

lemma committees_loop_view: "committees_loop ns acc s = (r, s') \<Longrightarrow> view s' = view s"
proof (induction ns arbitrary: acc s)
  case Nil
  then show ?case by simp
next
  case (Cons n ns)
  show ?case
  proof (cases "get_attr n ''code'' = Some []")
    case True
    with Cons show ?thesis by simp
  next
    case False
    show ?thesis
    proof (cases "Committee_objects_get (get_attr n ''code'') s")
      case (Inl e)
      show ?thesis
      proof (cases "e = DoesNotExist ''Committee''")
        case True
        with Cons.prems False Inl
        have "committees_loop ns acc (log_error (''Could not find committee '' @ str_of (get_attr n ''code'')) s) = (r, s')"
          by simp
        from Cons.IH [OF this] show ?thesis by (simp add: log_error_def)
      next
        case ne: False
        with Cons.prems False Inl show ?thesis by simp
      qed
    next
      case (Inr com)
      with Cons.prems False have "committees_loop ns (acc @ [com]) s = (r, s')" by simp
      from Cons.IH [OF this] show ?thesis .
    qed
  qed
qed

lemma terms_loop_view: "terms_loop cg ns acc s = (r, s') \<Longrightarrow> view s' = view s"
proof (induction ns arbitrary: acc s)
  case Nil
  then show ?case by simp
next
  case (Cons n ns)
  obtain g s1 where g: "get_term (get_attr n ''name'') cg s = (g, s1)"
    by (cases "get_term (get_attr n ''name'') cg s")
  note s1 = get_term_view [OF g]
  show ?case
  proof (cases g)
    case (Inl e)
    show ?thesis
    proof (cases "e = KeyError")
      case True
      with Cons.prems g Inl
      have "terms_loop cg ns acc (log_error (''Could not find term [name: '' @ str_of (get_attr n ''name'') @ '']'') s1) = (r, s')"
        by simp
      from Cons.IH [OF this] show ?thesis using s1 by (simp add: log_error_def)
    next
      case False
      with Cons.prems g Inl have "s' = s1" by simp
      with s1 show ?thesis by simp
    qed
  next
    case (Inr t)
    with Cons.prems g have "terms_loop cg ns (acc @ [t]) s1 = (r, s')" by simp
    from Cons.IH [OF this] show ?thesis using s1 by simp
  qed
qed

lemma Cosponsor_get_or_create_up_to:
  "Cosponsor_get_or_create p obj j w r s = (x, s') \<Longrightarrow> up_to cosponsors_update s s'"
  by (auto simp: Cosponsor_get_or_create_def Let_def split: list.splits)

lemma consponsors_loop_up_to:
  "consponsors_loop env obj ns s = (r, s') \<Longrightarrow> up_to cosponsors_update s s'"
proof (induction ns arbitrary: s)
  case Nil
  then show ?case by simp
next
  case (Cons n ns)
  obtain g s1 where g: "get_person (get_attr n ''id'') s = (g, s1)"
    by (cases "get_person (get_attr n ''id'') s")
  have s1: "up_to cosponsors_update s s1"
    by (rule up_to_view) (rule get_person_view [OF g])
  show ?case
  proof (cases g)
    case (Inl e)
    show ?thesis
    proof (cases "e = IndexError")
      case True
      with Cons.prems g Inl have "consponsors_loop env obj ns s1 = (r, s')" by simp
      from up_to_trans [OF s1 Cons.IH [OF this]] show ?thesis .
    next
      case False
      with Cons.prems g Inl have "s' = s1" by simp
      with s1 show ?thesis by simp
    qed
  next
    case (Inr p)
    note p = Inr
    show ?thesis
    proof (cases "parse_datetime env (get_attr n ''joined'')")
      case (Inl e)
      with Cons.prems g p have "s' = s1" by simp
      with s1 show ?thesis by simp
    next
      case (Inr j)
      note j = Inr
      show ?thesis
      proof (cases "parse_withdrawn env (get_attr n ''withdrawn'')")
        case (Inl e)
        with Cons.prems g p j have "s' = s1" by simp
        with s1 show ?thesis by simp
      next
        case (Inr w)
        note w = Inr
        show ?thesis
        proof (cases "get_role_at_date env p (Some j)")
          case (Inl e)
          with Cons.prems g p j w have "s' = s1" by simp
          with s1 show ?thesis by simp
        next
          case (Inr ro)
          note ro = Inr
          obtain x s2 where gc: "Cosponsor_get_or_create p obj j w ro s1 = (x, s2)"
            by (cases "Cosponsor_get_or_create p obj j w ro s1")
          note s2 = up_to_trans [OF s1 Cosponsor_get_or_create_up_to [OF gc]]
          show ?thesis
          proof (cases x)
            case (Inl e)
            with Cons.prems g p j w ro gc have "s' = s2" by simp
            with s2 show ?thesis by simp
          next
            case (Inr ob)
            let ?s3 = "if joined ob \<noteq> j \<or> withdrawn ob \<noteq> w
                     then Cosponsor_save (ob\<lparr>joined := j, withdrawn := w\<rparr>) s2 else s2"
            from Inr Cons.prems g p j w ro gc
            have "consponsors_loop env obj ns ?s3 = (r, s')"
              by simp
            note s' = Cons.IH [OF this]
            have "up_to cosponsors_update s2 ?s3"
              by (simp add: Cosponsor_save_def)
            from up_to_trans [OF up_to_trans [OF s2 this] s'] show ?thesis .
          qed
        qed
      qed
    qed
  qed
qed

lemma relatedbills_loop_up_to:
  "relatedbills_loop env obj ns s = (r, s') \<Longrightarrow> up_to relatedbills_update s s'"
proof (induction ns arbitrary: s)
  case Nil
  then show ?case by simp
next
  case (Cons n ns)
  show ?case
  proof (cases "related_lookup env n s")
    case (Inl e)
    show ?thesis
    proof (cases "e = DoesNotExist ''Bill''")
      case True
      with Cons.prems Inl have "relatedbills_loop env obj ns s = (r, s')" by simp
      from Cons.IH [OF this] show ?thesis .
    next
      case False
      with Cons.prems Inl show ?thesis by simp
    qed
  next
    case (Inr b)
    let ?s1 = "s\<lparr>relatedbills := relatedbills s @
                [\<lparr>rb_bill = bill_id obj, related_bill = bill_id b,
                  relation = get_attr n ''relation''\<rparr>]\<rparr>"
    from Inr Cons.prems have "relatedbills_loop env obj ns ?s1 = (r, s')" by simp
    from up_to_trans [OF _ Cons.IH [OF this], of s] show ?thesis by simp
  qed
qed

subsection \<open>The upsert\<close>

lemma objects_get_Inr: "objects_get m P rows = Inr r \<longleftrightarrow> filter P rows = [r]"
  by (auto simp: objects_get_def split: list.splits)

lemma objects_get_DoesNotExist: "objects_get m P rows = Inl (DoesNotExist m) \<longleftrightarrow> filter P rows = []"
  by (auto simp: objects_get_def split: list.splits)

lemma Bill_get_same_key:
  "Bill_objects_get (congress ob) (bill_type ob) (number ob) s = objects_get ''Bill'' (same_key ob) (bills s)"
proof -
  have "same_key ob = (\<lambda>b. congress b = congress ob \<and> bill_type b = bill_type ob \<and> number b = number ob)"
    by (rule ext) (simp add: same_key_def)
  then show ?thesis by (simp add: Bill_objects_get_def)
qed

lemma filter_replace_by_id:
  assumes "filter P B = [b]" and "distinct (map f B)" and "P c"
  shows "filter P (map (\<lambda>x. if f x = f b then c else x) B) = [c]"
  using assms
proof (induction B)
  case Nil
  then show ?case by simp
next
  case (Cons x xs)
  show ?case
  proof (cases "P x")
    case True
    with Cons.prems(1) have xb: "x = b" and none: "filter P xs = []" by simp_all
    from Cons.prems(2) xb have "f b \<notin> f ` set xs" by simp
    then have "\<forall>y \<in> set xs. f y \<noteq> f b" by (metis imageI)
    then have "map (\<lambda>x. if f x = f b then c else x) xs = xs" by (intro map_idI) auto
    with xb none Cons.prems(3) show ?thesis by simp
  next
    case False
    with Cons.prems(1) have f: "filter P xs = [b]" by simp
    then have "b \<in> set (filter P xs)" by simp
    then have "b \<in> set xs" by simp
    with Cons.prems(2) have "f x \<noteq> f b" by (metis distinct.simps(2) imageI list.simps(9) set_map)
    with False Cons.IH [OF f _ Cons.prems(3)] Cons.prems(2) show ?thesis by simp
  qed
qed

lemma map_replace_same_id:
  "f c = f b \<Longrightarrow> map f (map (\<lambda>x. if f x = f b then c else x) B) = map f B"
  by (induction B) simp_all

lemma replace_self:
  assumes "distinct (map f B)" and "c \<in> set B"
  shows "map (\<lambda>x. if f x = f c then c else x) B = B"
proof -
  have "\<forall>x \<in> set B. f x = f c \<longrightarrow> x = c"
    using assms by (meson distinct_map inj_onD)
  then show ?thesis by (intro map_idI) auto
qed

lemma fold_max_ge:
  "m0 \<le> fold (\<lambda>i m. case i of None \<Rightarrow> m | Some k \<Rightarrow> max k m) ids (m0::nat)"
  by (induction ids arbitrary: m0) (auto split: option.splits intro: order_trans [OF max.cobounded2])

lemma fold_max_ge_elem:
  "Some k \<in> set ids \<Longrightarrow> k \<le> fold (\<lambda>i m. case i of None \<Rightarrow> m | Some k \<Rightarrow> max k m) ids (m0::nat)"
proof (induction ids arbitrary: m0)
  case Nil
  then show ?case by simp
next
  case (Cons i ids)
  show ?case
  proof (cases "i = Some k")
    case True
    have "k \<le> max k m0" by simp
    also have "\<dots> \<le> fold (\<lambda>i m. case i of None \<Rightarrow> m | Some k \<Rightarrow> max k m) ids (max k m0)"
      by (rule fold_max_ge)
    finally show ?thesis using True by simp
  next
    case False
    with Cons.prems have "Some k \<in> set ids" by simp
    from Cons.IH [OF this] show ?thesis by simp
  qed
qed

lemma fresh_id_fresh: "Some (fresh_id ids) \<notin> set ids"
proof
  assume "Some (fresh_id ids) \<in> set ids"
  from fold_max_ge_elem [OF this, of 0] show False by (simp add: fresh_id_def)
qed

lemma process_sponsor_view: "process_sponsor env obj nd s = (r, s1) \<Longrightarrow> view s1 = view s"
proof (cases "xpath1 nd ''sponsor''")
  case Nil
  assume "process_sponsor env obj nd s = (r, s1)"
  with Nil show ?thesis by (simp add: process_sponsor_def process_sponsor_try_def)
next
  case (Cons elem rest)
  assume a: "process_sponsor env obj nd s = (r, s1)"
  obtain g s2 where g: "get_person (get_attr elem ''id'') s = (g, s2)"
    by (cases "get_person (get_attr elem ''id'') s")
  from a Cons g have "s1 = s2"
    by (simp add: process_sponsor_def process_sponsor_try_def Let_def split: sum.splits if_splits)
  with get_person_view [OF g] show ?thesis by simp
qed

lemma process_sponsor_res:
  assumes "eff_pc t = eff_pc s"
  shows "fst (process_sponsor env obj nd t) = fst (process_sponsor env obj nd s)"
proof (cases "xpath1 nd ''sponsor''")
  case Nil
  then show ?thesis by (simp add: process_sponsor_def process_sponsor_try_def)
next
  case (Cons elem rest)
  obtain g s2 where g: "get_person (get_attr elem ''id'') s = (g, s2)"
    by (cases "get_person (get_attr elem ''id'') s")
  obtain g' t2 where g': "get_person (get_attr elem ''id'') t = (g', t2)"
    by (cases "get_person (get_attr elem ''id'') t")
  have "g' = g"
    using get_person_res [of "get_attr elem ''id''" s] get_person_res [of "get_attr elem ''id''" t]
      g g' assms by simp
  with Cons g g' show ?thesis
    by (simp add: process_sponsor_def process_sponsor_try_def Let_def split: sum.splits)
qed

lemma process_fields_view: "process_fields env ob nd s = (r, s1) \<Longrightarrow> view s1 = view s"
  by (auto simp: process_fields_def bindM_def liftM_def
      split: prod.splits sum.splits dest: process_sponsor_view)

lemma process_fields_res:
  assumes "eff_pc t = eff_pc s"
  shows "fst (process_fields env ob nd t) = fst (process_fields env ob nd s)"
proof -
  have sp: "\<And>obj. fst (process_sponsor env obj nd t) = fst (process_sponsor env obj nd s)"
    by (rule process_sponsor_res [OF assms])
  show ?thesis
    unfolding process_fields_def bindM_def liftM_def
    using sp by (auto split: prod.splits sum.splits) (metis fst_conv sum.inject Inl_Inr_False)+
qed

lemma attributes_ident:
  "BillProcessor_attributes env ob nd = Inr ob1 \<Longrightarrow> bill_id ob1 = bill_id ob"
  by (auto simp: BillProcessor_attributes_def Processor_process_def BillProcessor_set_field_def
      bindS_def split: list.splits option.splits sum.splits if_splits)

lemma process_titles_ident:
  "process_titles env ob nd = Inr ob1 \<Longrightarrow>
     bill_id ob1 = bill_id ob \<and> congress ob1 = congress ob \<and> bill_type ob1 = bill_type ob
     \<and> number ob1 = number ob"
  by (auto simp: process_titles_def bindS_def Let_def split: sum.splits)

lemma process_introduced_ident:
  "process_introduced env ob nd = Inr ob1 \<Longrightarrow>
     bill_id ob1 = bill_id ob \<and> congress ob1 = congress ob \<and> bill_type ob1 = bill_type ob
     \<and> number ob1 = number ob"
  by (auto simp: process_introduced_def bindS_def split: sum.splits list.splits)

lemma process_current_status_ident:
  "process_current_status env ob nd = Inr ob1 \<Longrightarrow>
     bill_id ob1 = bill_id ob \<and> congress ob1 = congress ob \<and> bill_type ob1 = bill_type ob
     \<and> number ob1 = number ob"
  by (auto simp: process_current_status_def bindS_def split: sum.splits list.splits)

lemma process_sponsor_ident:
  "process_sponsor env ob nd s = (Inr ob1, s1) \<Longrightarrow>
     bill_id ob1 = bill_id ob \<and> congress ob1 = congress ob \<and> bill_type ob1 = bill_type ob
     \<and> number ob1 = number ob"
  by (auto simp: process_sponsor_def process_sponsor_try_def Let_def
      split: sum.splits list.splits prod.splits if_splits)

lemma process_fields_ident:
  assumes "process_fields env ob nd s = (Inr ob5, s1)"
  shows "\<exists>ob1. BillProcessor_attributes env ob nd = Inr ob1 \<and> same_key ob1 ob5 \<and> bill_id ob5 = bill_id ob"
proof -
  from assms obtain ob1 ob2 ob3 ob4 where
    a1: "BillProcessor_attributes env ob nd = Inr ob1" and
    a2: "process_titles env ob1 nd = Inr ob2" and
    a3: "process_introduced env ob2 nd = Inr ob3" and
    a4: "process_sponsor env ob3 nd s = (Inr ob4, s1)" and
    a5: "process_current_status env ob4 nd = Inr ob5"
    by (auto simp: process_fields_def bindM_def liftM_def split: prod.splits sum.splits)
  from attributes_ident [OF a1] process_titles_ident [OF a2] process_introduced_ident [OF a3]
    process_sponsor_ident [OF a4] process_current_status_ident [OF a5] a1
  show ?thesis by (simp add: same_key_def)
qed

lemma adopt_id_state: "adopt_id ob s = (r, s') \<Longrightarrow> s' = s"
  by (auto simp: adopt_id_def split: sum.splits if_splits)

lemma Bill_save_up_to: "Bill_save ob s = (ob', s') \<Longrightarrow> up_to bills_update s s'"
  by (auto simp: Bill_save_def Let_def split: option.splits if_splits)

lemma process_committees_up_to:
  "process_committees ob nd s = (r, s') \<Longrightarrow> up_to bill_committees_update s s'"
proof -
  assume a: "process_committees ob nd s = (r, s')"
  obtain rc s1 where l: "committees_loop (xpath2 nd ''committees'' ''committee'') [] s = (rc, s1)"
    by (cases "committees_loop (xpath2 nd ''committees'' ''committee'') [] s")
  note v = up_to_view(2) [OF committees_loop_view [OF l]]
  show ?thesis
  proof (cases rc)
    case (Inl e)
    with a l have "s' = s1" by (simp add: process_committees_def bindM_def)
    with v show ?thesis by simp
  next
    case (Inr cl)
    with a l have "s' = set_committees ob cl s1" by (simp add: process_committees_def bindM_def)
    then have "up_to bill_committees_update s1 s'" by (simp add: set_committees_def)
    from up_to_trans [OF v this] show ?thesis .
  qed
qed

lemma process_terms_up_to:
  "process_terms ob nd cg s = (r, s') \<Longrightarrow> up_to bill_terms_update s s'"
proof -
  assume a: "process_terms ob nd cg s = (r, s')"
  obtain rc s1 where l: "terms_loop cg (xpath2 nd ''subjects'' ''term'') [] s = (rc, s1)"
    by (cases "terms_loop cg (xpath2 nd ''subjects'' ''term'') [] s")
  note v = up_to_view(3) [OF terms_loop_view [OF l]]
  show ?thesis
  proof (cases rc)
    case (Inl e)
    with a l have "s' = s1" by (simp add: process_terms_def bindM_def)
    with v show ?thesis by simp
  next
    case (Inr cl)
    with a l have "s' = set_terms ob cl s1" by (simp add: process_terms_def bindM_def)
    then have "up_to bill_terms_update s1 s'" by (simp add: set_terms_def)
    from up_to_trans [OF v this] show ?thesis .
  qed
qed

lemma process_consponsors_up_to:
  "process_consponsors env ob nd s = (r, s') \<Longrightarrow> up_to cosponsors_update s s'"
  by (simp add: process_consponsors_def consponsors_loop_up_to)

lemma process_relatedbills_up_to:
  "process_relatedbills env ob nd s = (r, s') \<Longrightarrow> up_to relatedbills_update s s'"
proof -
  assume "process_relatedbills env ob nd s = (r, s')"
  then have "up_to relatedbills_update (s\<lparr>relatedbills := filter (\<lambda>r. rb_bill r \<noteq> bill_id ob) (relatedbills s)\<rparr>) s'"
    by (simp add: process_relatedbills_def relatedbills_loop_up_to)
  from up_to_trans [OF _ this, of s] show ?thesis by simp
qed

lemma up_to_bills_same:
  "up_to bill_committees_update s s' \<Longrightarrow> bills s' = bills s"
  "up_to bill_terms_update s s' \<Longrightarrow> bills s' = bills s"
  "up_to cosponsors_update s s' \<Longrightarrow> bills s' = bills s"
  "up_to relatedbills_update s s' \<Longrightarrow> bills s' = bills s"
  by (drule up_to_D, drule view_fields, simp)+

text \<open>The writes that follow the save leave the table of bills alone.\<close>

lemma after_save_bills:
  assumes "bindM (process_committees ob nd) (\<lambda>_.
           bindM (process_terms ob nd cg) (\<lambda>_.
           bindM (process_consponsors env ob nd) (\<lambda>_.
           bindM (process_relatedbills env ob nd) (\<lambda>_. returnM ob)))) s = (r, s')"
  shows "bills s' = bills s \<and> (\<forall>x. r = Inr x \<longrightarrow> x = ob)"
proof -
  obtain r1 s1 where c1: "process_committees ob nd s = (r1, s1)" by (cases "process_committees ob nd s")
  obtain r2 s2 where c2: "process_terms ob nd cg s1 = (r2, s2)" by (cases "process_terms ob nd cg s1")
  obtain r3 s3 where c3: "process_consponsors env ob nd s2 = (r3, s3)" by (cases "process_consponsors env ob nd s2")
  obtain r4 s4 where c4: "process_relatedbills env ob nd s3 = (r4, s4)" by (cases "process_relatedbills env ob nd s3")
  note b1 = up_to_bills_same(1) [OF process_committees_up_to [OF c1]]
  note b2 = up_to_bills_same(2) [OF process_terms_up_to [OF c2]]
  note b3 = up_to_bills_same(3) [OF process_consponsors_up_to [OF c3]]
  note b4 = up_to_bills_same(4) [OF process_relatedbills_up_to [OF c4]]
  from assms c1 c2 c3 c4 b1 b2 b3 b4 show ?thesis
    by (auto simp: bindM_def returnM_def split: sum.splits)
qed

lemma process_store_cases:
  assumes "process_store env ob5 nd s = (r, s')"
  shows "(\<exists>e. adopt_id ob5 s = (Inl e, s) \<and> r = Inl e \<and> s' = s)
       \<or> (\<exists>ob6 ob s2. adopt_id ob5 s = (Inr ob6, s) \<and> Bill_save ob6 s = (ob, s2)
              \<and> bills s' = bills s2 \<and> (\<forall>x. r = Inr x \<longrightarrow> x = ob))"
proof -
  obtain ra sa where a: "adopt_id ob5 s = (ra, sa)" by (cases "adopt_id ob5 s")
  from adopt_id_state [OF a] have sa: "sa = s" .
  show ?thesis
  proof (cases ra)
    case (Inl e)
    with assms a sa show ?thesis by (auto simp: process_store_def bindM_def)
  next
    case (Inr ob6)
    obtain ob s2 where sv: "Bill_save ob6 s = (ob, s2)" by (cases "Bill_save ob6 s")
    from assms a sa Inr sv
    have "bindM (process_committees ob nd) (\<lambda>_.
           bindM (process_terms ob nd (congress ob)) (\<lambda>_.
           bindM (process_consponsors env ob nd) (\<lambda>_.
           bindM (process_relatedbills env ob nd) (\<lambda>_. returnM ob)))) s2 = (r, s')"
      by (simp add: process_store_def bindM_def)
    from after_save_bills [OF this] a sa Inr sv show ?thesis by simp
  qed
qed

lemma upsert_found:
  assumes wf: "wf_bills s" and nid: "bill_id ob5 = None"
    and ex: "Bill_objects_get (congress ob5) (bill_type ob5) (number ob5) s = Inr b"
  shows "adopt_id ob5 s = (Inr (ob5\<lparr>bill_id := bill_id b\<rparr>), s)"
    and "Bill_save (ob5\<lparr>bill_id := bill_id b\<rparr>) s
           = (ob5\<lparr>bill_id := bill_id b\<rparr>,
              s\<lparr>bills := map (\<lambda>x. if bill_id x = bill_id b then ob5\<lparr>bill_id := bill_id b\<rparr> else x) (bills s)\<rparr>)"
proof -
  show "adopt_id ob5 s = (Inr (ob5\<lparr>bill_id := bill_id b\<rparr>), s)"
    using ex by (simp add: adopt_id_def)
  from ex have "filter (same_key ob5) (bills s) = [b]"
    by (simp add: Bill_get_same_key objects_get_Inr)
  then have "b \<in> set (filter (same_key ob5) (bills s))" by simp
  then have bin: "b \<in> set (bills s)" by simp
  with wf have "bill_id b \<noteq> None"
    by (force simp: wf_bills_def)
  then obtain i where i: "bill_id b = Some i" by auto
  from bin i have "\<exists>x \<in> set (bills s). bill_id x = Some i" by blast
  then show "Bill_save (ob5\<lparr>bill_id := bill_id b\<rparr>) s
           = (ob5\<lparr>bill_id := bill_id b\<rparr>,
              s\<lparr>bills := map (\<lambda>x. if bill_id x = bill_id b then ob5\<lparr>bill_id := bill_id b\<rparr> else x) (bills s)\<rparr>)"
    using i by (simp add: Bill_save_def)
qed

text \<open>
  C1: the table of bills has a primary key and holds a bill under the natural key of the
  document. Then, however the reconciliation ends, the table has the same ids as before
  and exactly one bill under that key; and when the reconciliation succeeds the processed
  object carries the id of the stored bill, has the key of the document, and has replaced
  the stored bill in its row, every other row being as before.
\<close>

theorem process_upsert:
  assumes wf: "wf_bills s"
    and key: "BillProcessor_attributes env Bill_new nd = Inr ob1"
    and ex: "Bill_objects_get (congress ob1) (bill_type ob1) (number ob1) s = Inr b"
    and run: "process env Bill_new nd s = (r, s')"
  shows "map bill_id (bills s') = map bill_id (bills s)
       \<and> length (filter (same_key ob1) (bills s')) = 1
       \<and> (\<forall>ob. r = Inr ob \<longrightarrow>
            bill_id ob = bill_id b \<and> same_key ob1 ob
            \<and> bills s' = map (\<lambda>x. if bill_id x = bill_id b then ob else x) (bills s))"
proof -
  from ex have fb: "filter (same_key ob1) (bills s) = [b]"
    by (simp add: Bill_get_same_key objects_get_Inr)
  obtain rf s1 where f: "process_fields env Bill_new nd s = (rf, s1)"
    by (cases "process_fields env Bill_new nd s")
  from view_fields [OF process_fields_view [OF f]] have b1: "bills s1 = bills s" by simp
  show ?thesis
  proof (cases rf)
    case (Inl e)
    with run f have "r = Inl e" and "s' = s1" by (simp_all add: process_split bindM_def)
    with b1 fb show ?thesis by simp
  next
    case (Inr ob5)
    with run f have st: "process_store env ob5 nd s1 = (r, s')" by (simp add: process_split bindM_def)
    from process_fields_ident [OF f [unfolded Inr]] key
    have k5: "same_key ob1 ob5" and id5: "bill_id ob5 = None" by (auto simp: Bill_new_def)
    have sk: "same_key ob5 = same_key ob1"
      using k5 by (intro ext) (auto simp: same_key_def)
    have wf1: "wf_bills s1" using wf b1 by (simp add: wf_bills_def)
    have ex1: "Bill_objects_get (congress ob5) (bill_type ob5) (number ob5) s1 = Inr b"
      using fb b1 sk by (simp add: Bill_get_same_key objects_get_Inr)
    let ?ob = "ob5\<lparr>bill_id := bill_id b\<rparr>"
    note up = upsert_found [OF wf1 id5 ex1]
    from process_store_cases [OF st] up
    have "bills s' = map (\<lambda>x. if bill_id x = bill_id b then ?ob else x) (bills s1)
            \<and> (\<forall>x. r = Inr x \<longrightarrow> x = ?ob)"
      by auto
    then have bs: "bills s' = map (\<lambda>x. if bill_id x = bill_id b then ?ob else x) (bills s)"
      and res: "\<forall>x. r = Inr x \<longrightarrow> x = ?ob" using b1 by simp_all
    have ids: "map bill_id (bills s') = map bill_id (bills s)"
      unfolding bs by (rule map_replace_same_id) simp
    have kob: "same_key ob1 ?ob" using k5 by (simp add: same_key_def)
    from wf have "distinct (map bill_id (bills s))" by (simp add: wf_bills_def)
    from filter_replace_by_id [OF fb this kob]
    have "filter (same_key ob1) (bills s') = [?ob]" by (simp add: bs)
    with ids res kob bs show ?thesis by auto
  qed
qed

theorem process_upsert_witness:
  "wf_bills ex_state_related
   \<and> BillProcessor_attributes ex_env Bill_new doc_hr1
       = Inr (Bill_new\<lparr>bill_type := Some 3, congress := Some 111, number := Some 1\<rparr>)
   \<and> Bill_objects_get (Some 111) (Some 3) (Some 1) ex_state_related
       = Inr (Bill_new\<lparr>bill_id := Some 1, congress := Some 111, bill_type := Some 3, number := Some 1\<rparr>)
   \<and> fst (process ex_env Bill_new doc_hr1 ex_state_related) = Inr hr1_saved
   \<and> map bill_id (bills (snd (process ex_env Bill_new doc_hr1 ex_state_related))) = [Some 1, Some 2]
   \<and> length (filter (same_key hr1_saved) (bills (snd (process ex_env Bill_new doc_hr1 ex_state_related)))) = 1
   \<and> bills (snd (process ex_env Bill_new doc_hr1 ex_state_related))
       = [hr1_saved, Bill_new\<lparr>bill_id := Some 2, congress := Some 111, bill_type := Some 2, number := Some 7\<rparr>]"
proof -
  let ?k = "Bill_new\<lparr>bill_type := Some 3, congress := Some 111, number := Some 1\<rparr>"
  let ?b = "Bill_new\<lparr>bill_id := Some 1, congress := Some 111, bill_type := Some 3, number := Some 1\<rparr>"
  let ?s' = "snd (process ex_env Bill_new doc_hr1 ex_state_related)"
  have g1: "wf_bills ex_state_related"
    by (simp add: wf_bills_def ex_state_related_def ex_state_def Bill_new_def)
  have g2: "BillProcessor_attributes ex_env Bill_new doc_hr1 = Inr ?k"
    by (simp add: BillProcessor_attributes_def Processor_process_def BillProcessor_set_field_def
        type_handler_def session_handler_def number_handler_def bindS_def doc_hr1_def xml_eval
        ex_env_def py_int_eval Let_def Bill_new_def)
  have g3: "Bill_objects_get (Some 111) (Some 3) (Some 1) ex_state_related = Inr ?b"
    by (simp add: Bill_objects_get_def objects_get_def ex_state_related_def ex_state_def Bill_new_def)
  then have h3: "Bill_objects_get (congress ?k) (bill_type ?k) (number ?k) ex_state_related = Inr ?b"
    by (simp add: Bill_new_def)
  have g4: "fst (process ex_env Bill_new doc_hr1 ex_state_related) = Inr hr1_saved"
    by (simp add: process_eval xml_eval py_int_eval ex_env_def ex_state_related_def ex_state_def
        doc_hr1_def Bill_new_def hr1_saved_def)
  have run: "process ex_env Bill_new doc_hr1 ex_state_related = (Inr hr1_saved, ?s')"
    using g4 by (simp add: prod_eq_iff)
  note th = process_upsert [OF g1 g2 h3 run]
  have stored: "bills ex_state_related
      = [?b, Bill_new\<lparr>bill_id := Some 2, congress := Some 111, bill_type := Some 2, number := Some 7\<rparr>]"
    by (simp add: ex_state_related_def ex_state_def)
  have sk: "same_key ?k = same_key hr1_saved"
    by (rule ext) (simp add: same_key_def hr1_saved_def Bill_new_def)
  note t1 = th [THEN conjunct1]
  note t2 = th [THEN conjunct2, THEN conjunct1]
  note t3 = th [THEN conjunct2, THEN conjunct2, rule_format, OF refl]
  from t1 have g5: "map bill_id (bills ?s') = [Some 1, Some 2]"
    by (simp add: stored Bill_new_def)
  from t2 have g6: "length (filter (same_key hr1_saved) (bills ?s')) = 1"
    by (simp only: sk)
  from t3 have "bills ?s' = map (\<lambda>x. if bill_id x = bill_id ?b then hr1_saved else x) (bills ex_state_related)"
    by simp
  then have g7: "bills ?s'
       = [hr1_saved, Bill_new\<lparr>bill_id := Some 2, congress := Some 111, bill_type := Some 2, number := Some 7\<rparr>]"
    by (simp add: stored Bill_new_def)
  show ?thesis
    by (rule conjI g1 g2 g3 g4 g5 g6 g7)+
qed

subsection \<open>Running a step again\<close>

lemma committees_loop_res:
  "committees t = committees s \<Longrightarrow> fst (committees_loop ns acc t) = fst (committees_loop ns acc s)"
proof (induction ns arbitrary: acc s t)
  case Nil
  show ?case by simp
next
  case (Cons n ns)
  have g: "Committee_objects_get (get_attr n ''code'') t = Committee_objects_get (get_attr n ''code'') s"
    using Cons.prems by (simp add: Committee_objects_get_def)
  show ?case
  proof (cases "get_attr n ''code'' = Some []")
    case True
    with Cons.IH [OF Cons.prems] show ?thesis by simp
  next
    case False
    show ?thesis
    proof (cases "Committee_objects_get (get_attr n ''code'') s")
      case (Inl e)
      show ?thesis
      proof (cases "e = DoesNotExist ''Committee''")
        case True
        have "committees (log_error (''Could not find committee '' @ str_of (get_attr n ''code'')) t)
            = committees (log_error (''Could not find committee '' @ str_of (get_attr n ''code'')) s)"
          using Cons.prems by (simp add: log_error_def)
        from Cons.IH [OF this] False Inl True g show ?thesis by simp
      next
        case ne: False
        with False Inl g show ?thesis by simp
      qed
    next
      case (Inr com)
      with Cons.IH [OF Cons.prems] False g show ?thesis by simp
    qed
  qed
qed

lemma terms_loop_res:
  "eff_tc t = eff_tc s \<Longrightarrow> fst (terms_loop cg ns acc t) = fst (terms_loop cg ns acc s)"
proof (induction ns arbitrary: acc s t)
  case Nil
  show ?case by simp
next
  case (Cons n ns)
  obtain g s1 where gs: "get_term (get_attr n ''name'') cg s = (g, s1)"
    by (cases "get_term (get_attr n ''name'') cg s")
  obtain g' t1 where gt: "get_term (get_attr n ''name'') cg t = (g', t1)"
    by (cases "get_term (get_attr n ''name'') cg t")
  have gg: "g' = g"
    using get_term_res [of "get_attr n ''name''" cg s] get_term_res [of "get_attr n ''name''" cg t]
      gs gt Cons.prems by simp
  from view_fields [OF get_term_view [OF gs]] view_fields [OF get_term_view [OF gt]] Cons.prems
  have e1: "eff_tc t1 = eff_tc s1" by simp
  show ?case
  proof (cases g)
    case (Inl e)
    show ?thesis
    proof (cases "e = KeyError")
      case True
      have "eff_tc (log_error (''Could not find term [name: '' @ str_of (get_attr n ''name'') @ '']'') t1)
          = eff_tc (log_error (''Could not find term [name: '' @ str_of (get_attr n ''name'') @ '']'') s1)"
        using e1 by (simp add: log_error_def)
      from Cons.IH [OF this] gs gt gg Inl True show ?thesis by simp
    next
      case False
      with gs gt gg Inl show ?thesis by simp
    qed
  next
    case (Inr tm)
    with Cons.IH [OF e1] gs gt gg show ?thesis by simp
  qed
qed

lemma refilter_append:
  assumes "\<forall>r \<in> set new. f r = k"
  shows "filter (\<lambda>r. f r \<noteq> k) (filter (\<lambda>r. f r \<noteq> k) old @ new) @ new = filter (\<lambda>r. f r \<noteq> k) old @ new"
proof -
  from assms have "filter (\<lambda>r. f r \<noteq> k) new = []" by (simp add: filter_empty_conv)
  then show ?thesis by simp
qed

lemma view_restore:
  "view t' = view t \<Longrightarrow> view (t'\<lparr>bill_committees := bill_committees t\<rparr>) = view t"
  "view t' = view t \<Longrightarrow> view (t'\<lparr>bill_terms := bill_terms t\<rparr>) = view t"
  "view t' = view t \<Longrightarrow> view (t'\<lparr>cosponsors := cosponsors t\<rparr>) = view t"
  "view t' = view t \<Longrightarrow> view (t'\<lparr>relatedbills := relatedbills t\<rparr>) = view t"
  "view t' = view t \<Longrightarrow> view (t'\<lparr>bills := bills t\<rparr>) = view t"
proof -
  show "view t' = view t \<Longrightarrow> view (t'\<lparr>bill_committees := bill_committees t\<rparr>) = view t"
    using view_cong_upd(2) [of t' t "bill_committees t"] by simp
  show "view t' = view t \<Longrightarrow> view (t'\<lparr>bill_terms := bill_terms t\<rparr>) = view t"
    using view_cong_upd(3) [of t' t "bill_terms t"] by simp
  show "view t' = view t \<Longrightarrow> view (t'\<lparr>cosponsors := cosponsors t\<rparr>) = view t"
    using view_cong_upd(4) [of t' t "cosponsors t"] by simp
  show "view t' = view t \<Longrightarrow> view (t'\<lparr>relatedbills := relatedbills t\<rparr>) = view t"
    using view_cong_upd(5) [of t' t "relatedbills t"] by simp
  show "view t' = view t \<Longrightarrow> view (t'\<lparr>bills := bills t\<rparr>) = view t"
    using view_cong_upd(1) [of t' t "bills t"] by simp
qed

lemma process_committees_rerun:
  assumes run: "process_committees ob nd s = (Inr u, s')"
    and c: "committees t = committees s" and bc: "bill_committees t = bill_committees s'"
  shows "\<exists>t'. process_committees ob nd t = (Inr (), t') \<and> view t' = view t"
proof -
  let ?refs = "xpath2 nd ''committees'' ''committee''"
  obtain rc s1 where ls: "committees_loop ?refs [] s = (rc, s1)" by (cases "committees_loop ?refs [] s")
  obtain rc' t1 where lt: "committees_loop ?refs [] t = (rc', t1)" by (cases "committees_loop ?refs [] t")
  from committees_loop_res [OF c, of ?refs "[]"] ls lt have rr: "rc' = rc" by simp
  from run ls obtain cl where cl: "rc = Inr cl" and s': "s' = set_committees ob cl s1"
    by (cases rc) (auto simp: process_committees_def bindM_def)
  from view_fields [OF committees_loop_view [OF ls]] have b1: "bill_committees s1 = bill_committees s" by simp
  note vt = committees_loop_view [OF lt]
  from view_fields [OF vt] have b2: "bill_committees t1 = bill_committees t" by simp
  let ?new = "map (\<lambda>c. (bill_id ob, c)) (remdups (map committee_id cl))"
  have "bill_committees t = filter (\<lambda>r. fst r \<noteq> bill_id ob) (bill_committees s) @ ?new"
    using bc s' b1 by (simp add: set_committees_def)
  then have "filter (\<lambda>r. fst r \<noteq> bill_id ob) (bill_committees t) @ ?new = bill_committees t"
    using refilter_append [of ?new fst "bill_id ob" "bill_committees s"] by simp
  then have "set_committees ob cl t1 = t1\<lparr>bill_committees := bill_committees t\<rparr>"
    using b2 by (simp add: set_committees_def)
  moreover have "process_committees ob nd t = (Inr (), set_committees ob cl t1)"
    using lt rr cl by (simp add: process_committees_def bindM_def)
  ultimately show ?thesis using view_restore(1) [OF vt] by simp
qed

lemma process_terms_rerun:
  assumes run: "process_terms ob nd cg s = (Inr u, s')"
    and c: "eff_tc t = eff_tc s" and bc: "bill_terms t = bill_terms s'"
  shows "\<exists>t'. process_terms ob nd cg t = (Inr (), t') \<and> view t' = view t"
proof -
  let ?refs = "xpath2 nd ''subjects'' ''term''"
  obtain rc s1 where ls: "terms_loop cg ?refs [] s = (rc, s1)" by (cases "terms_loop cg ?refs [] s")
  obtain rc' t1 where lt: "terms_loop cg ?refs [] t = (rc', t1)" by (cases "terms_loop cg ?refs [] t")
  from terms_loop_res [OF c, of cg ?refs "[]"] ls lt have rr: "rc' = rc" by simp
  from run ls obtain cl where cl: "rc = Inr cl" and s': "s' = set_terms ob cl s1"
    by (cases rc) (auto simp: process_terms_def bindM_def)
  from view_fields [OF terms_loop_view [OF ls]] have b1: "bill_terms s1 = bill_terms s" by simp
  note vt = terms_loop_view [OF lt]
  from view_fields [OF vt] have b2: "bill_terms t1 = bill_terms t" by simp
  let ?new = "map (\<lambda>c. (bill_id ob, c)) (remdups (map term_id cl))"
  have "bill_terms t = filter (\<lambda>r. fst r \<noteq> bill_id ob) (bill_terms s) @ ?new"
    using bc s' b1 by (simp add: set_terms_def)
  then have "filter (\<lambda>r. fst r \<noteq> bill_id ob) (bill_terms t) @ ?new = bill_terms t"
    using refilter_append [of ?new fst "bill_id ob" "bill_terms s"] by simp
  then have "set_terms ob cl t1 = t1\<lparr>bill_terms := bill_terms t\<rparr>"
    using b2 by (simp add: set_terms_def)
  moreover have "process_terms ob nd cg t = (Inr (), set_terms ob cl t1)"
    using lt rr cl by (simp add: process_terms_def bindM_def)
  ultimately show ?thesis using view_restore(2) [OF vt] by simp
qed

lemma relatedbills_loop_ok:
  "relatedbills_loop env ob refs s = (Inr u, s') \<Longrightarrow>
     \<forall>n \<in> set refs. related_lookup env n s = Inl (DoesNotExist ''Bill'') \<or> (\<exists>b. related_lookup env n s = Inr b)"
proof (induction refs arbitrary: s)
  case Nil
  show ?case by simp
next
  case (Cons n refs)
  show ?case
  proof (cases "related_lookup env n s")
    case (Inl e)
    with Cons.prems have e: "e = DoesNotExist ''Bill''" by (simp split: if_splits)
    with Cons.prems Inl have "relatedbills_loop env ob refs s = (Inr u, s')" by simp
    from Cons.IH [OF this] Inl e show ?thesis by simp
  next
    case (Inr b)
    let ?s1 = "s\<lparr>relatedbills := relatedbills s @
                [\<lparr>rb_bill = bill_id ob, related_bill = bill_id b,
                  relation = get_attr n ''relation''\<rparr>]\<rparr>"
    from Inr Cons.prems have "relatedbills_loop env ob refs ?s1 = (Inr u, s')" by simp
    from Cons.IH [OF this] Inr show ?thesis by simp
  qed
qed

lemma related_lookup_bills:
  "bills t = bills s \<Longrightarrow> related_lookup env n t = related_lookup env n s"
  by (simp add: related_lookup_def Bill_objects_get_def)

lemma resolved_rows_bills:
  "bills t = bills s \<Longrightarrow> resolved_rows env ob refs t = resolved_rows env ob refs s"
  by (simp add: resolved_rows_def related_lookup_bills [of t s])

lemma process_relatedbills_rerun:
  assumes run: "process_relatedbills env ob nd s = (Inr u, s')"
    and b: "bills t = bills s" and rb: "relatedbills t = relatedbills s'"
  shows "process_relatedbills env ob nd t = (Inr (), t)"
proof -
  let ?refs = "xpath2 nd ''relatedbills'' ''bill''"
  let ?s0 = "s\<lparr>relatedbills := filter (\<lambda>r. rb_bill r \<noteq> bill_id ob) (relatedbills s)\<rparr>"
  let ?t0 = "t\<lparr>relatedbills := filter (\<lambda>r. rb_bill r \<noteq> bill_id ob) (relatedbills t)\<rparr>"
  from run have l: "relatedbills_loop env ob ?refs ?s0 = (Inr u, s')"
    by (simp add: process_relatedbills_def)
  from relatedbills_loop_ok [OF l]
  have oks: "\<forall>n \<in> set ?refs. related_lookup env n s = Inl (DoesNotExist ''Bill'')
               \<or> (\<exists>b. related_lookup env n s = Inr b)"
    by simp
  then have oks0: "\<forall>n \<in> set ?refs. related_lookup env n ?s0 = Inl (DoesNotExist ''Bill'')
               \<or> (\<exists>b. related_lookup env n ?s0 = Inr b)"
    by simp
  from oks have okt: "\<forall>n \<in> set ?refs. related_lookup env n ?t0 = Inl (DoesNotExist ''Bill'')
               \<or> (\<exists>b. related_lookup env n ?t0 = Inr b)"
    by (simp add: related_lookup_bills [OF b])
  let ?rows = "resolved_rows env ob ?refs s"
  from relatedbills_loop_rows [OF oks0, of ob] l
  have s': "relatedbills s' = filter (\<lambda>r. rb_bill r \<noteq> bill_id ob) (relatedbills s) @ ?rows"
    by auto
  have "\<forall>r \<in> set ?rows. rb_bill r = bill_id ob"
    by (simp add: rb_bill_resolved_rows)
  from refilter_append [OF this, of "relatedbills s"] s' rb
  have fx: "filter (\<lambda>r. rb_bill r \<noteq> bill_id ob) (relatedbills t) @ ?rows = relatedbills t"
    by simp
  from relatedbills_loop_rows [OF okt, of ob]
  have "process_relatedbills env ob nd t
          = (Inr (), t\<lparr>relatedbills := filter (\<lambda>r. rb_bill r \<noteq> bill_id ob) (relatedbills t)
                         @ resolved_rows env ob ?refs t\<rparr>)"
    by (simp add: process_relatedbills_def)
  with fx resolved_rows_bills [OF b, of env ob ?refs] show ?thesis by simp
qed

lemma upsert_rerun:
  assumes wf: "wf_bills s" and nid: "bill_id ob5 = None"
    and ad: "adopt_id ob5 s = (Inr ob6, s)" and sv: "Bill_save ob6 s = (ob, s2)"
    and bt: "bills t = bills s2"
  shows "adopt_id ob5 t = (Inr ob, t) \<and> Bill_save ob t = (ob, t)"
proof -
  have core: "filter (same_key ob5) (bills s2) = [ob] \<and> distinct (map bill_id (bills s2))
        \<and> ob5\<lparr>bill_id := bill_id ob\<rparr> = ob \<and> bill_id ob \<noteq> None"
  proof (cases "Bill_objects_get (congress ob5) (bill_type ob5) (number ob5) s")
    case (Inr b)
    note up = upsert_found [OF wf nid Inr]
    from up(1) ad have ob6: "ob6 = ob5\<lparr>bill_id := bill_id b\<rparr>" by simp
    from up(2) sv ob6 have ob: "ob = ob5\<lparr>bill_id := bill_id b\<rparr>"
      and s2: "bills s2 = map (\<lambda>x. if bill_id x = bill_id b then ob else x) (bills s)"
      by auto
    from Inr have fb: "filter (same_key ob5) (bills s) = [b]"
      by (simp add: Bill_get_same_key objects_get_Inr)
    then have "b \<in> set (filter (same_key ob5) (bills s))" by simp
    then have bin: "b \<in> set (bills s)" by simp
    from wf have d: "distinct (map bill_id (bills s))" by (simp add: wf_bills_def)
    have k: "same_key ob5 ob" by (simp add: ob same_key_def)
    from filter_replace_by_id [OF fb d k] have f2: "filter (same_key ob5) (bills s2) = [ob]"
      by (simp add: s2)
    have "map bill_id (bills s2) = map bill_id (bills s)"
      unfolding s2 by (rule map_replace_same_id) (simp add: ob)
    with d have d2: "distinct (map bill_id (bills s2))" by simp
    from wf bin have "bill_id b \<noteq> None" by (force simp: wf_bills_def)
    with f2 d2 ob show ?thesis by simp
  next
    case (Inl e)
    with ad have e: "e = DoesNotExist ''Bill''" and ob6: "ob6 = ob5"
      by (auto simp: adopt_id_def split: if_splits)
    let ?i = "fresh_id (map bill_id (bills s))"
    from sv ob6 nid have ob: "ob = ob5\<lparr>bill_id := Some ?i\<rparr>" and s2: "bills s2 = bills s @ [ob]"
      by (auto simp: Bill_save_def Let_def)
    from Inl e have "filter (same_key ob5) (bills s) = []"
      by (simp add: Bill_get_same_key objects_get_DoesNotExist)
    then have f2: "filter (same_key ob5) (bills s2) = [ob]"
      by (simp add: s2 ob same_key_def)
    from wf have d: "distinct (map bill_id (bills s))" by (simp add: wf_bills_def)
    have "Some ?i \<notin> set (map bill_id (bills s))" by (rule fresh_id_fresh)
    with d have d2: "distinct (map bill_id (bills s2))" by (simp add: s2 ob)
    with f2 ob show ?thesis by simp
  qed
  then have f2: "filter (same_key ob5) (bills t) = [ob]" and d2: "distinct (map bill_id (bills t))"
    and ob: "ob5\<lparr>bill_id := bill_id ob\<rparr> = ob" and idn: "bill_id ob \<noteq> None"
    using bt by simp_all
  have a: "adopt_id ob5 t = (Inr ob, t)"
    using f2 ob by (simp add: adopt_id_def Bill_get_same_key objects_get_Inr [THEN iffD2])
  from f2 have "ob \<in> set (filter (same_key ob5) (bills t))" by simp
  then have oin: "ob \<in> set (bills t)" by simp
  from idn obtain i where i: "bill_id ob = Some i" by auto
  from replace_self [OF d2 oin] have "map (\<lambda>x. if bill_id x = Some i then ob else x) (bills t) = bills t"
    by (simp add: i)
  with oin i have "Bill_save ob t = (ob, t)"
    by (auto simp: Bill_save_def)
  with a show ?thesis by simp
qed

subsection \<open>Cosponsors\<close>

lemma matches_touch [simp]: "matches b (touch a x) = matches b x"
  by (simp add: touch_def matches_def)

lemma matches_comp_touch [simp]: "matches b \<circ> touch a = matches b"
  by (rule ext) simp

lemma filter_matches_touch:
  "length (filter (matches b) (map (touch a) T)) = length (filter (matches b) T)"
  by (simp add: filter_map)

lemma touch_all_Nil [simp]: "touch_all env ob c [] x = x"
  by (simp add: touch_all_def)

lemma touch_all_Cons:
  "touch_all env ob c (n # ns) x =
     touch_all env ob c ns (case cos_resolve env ob c n of Inl e \<Rightarrow> x | Inr a \<Rightarrow> touch a x)"
  by (simp add: touch_all_def)

lemma touch_all_snoc:
  "touch_all env ob c (ns @ [n]) x =
     (case cos_resolve env ob c n of Inl e \<Rightarrow> touch_all env ob c ns x
      | Inr a \<Rightarrow> touch a (touch_all env ob c ns x))"
  by (simp add: touch_all_def split: sum.splits)

lemma touch_all_shape:
  "\<exists>j w. touch_all env ob c ns x = x\<lparr>joined := j, withdrawn := w\<rparr>"
proof (induction ns arbitrary: x)
  case Nil
  have "x = x\<lparr>joined := joined x, withdrawn := withdrawn x\<rparr>" by simp
  then show ?case by (metis touch_all_Nil)
next
  case (Cons n ns)
  show ?case
  proof (cases "cos_resolve env ob c n")
    case (Inl e)
    with Cons.IH [of x] show ?thesis by (simp add: touch_all_Cons)
  next
    case (Inr a)
    from Cons.IH [of "touch a x"] obtain j w
      where "touch_all env ob c ns (touch a x) = (touch a x)\<lparr>joined := j, withdrawn := w\<rparr>"
      by blast
    then have "touch_all env ob c (n # ns) x = x\<lparr>joined := j, withdrawn := w\<rparr>"
      using Inr by (simp add: touch_all_Cons touch_def)
    then show ?thesis by blast
  qed
qed

lemma touch_after_all:
  assumes "matches a x" and "joined x = joined a" and "withdrawn x = withdrawn a"
  shows "touch a (touch_all env ob c ns x) = x"
proof -
  from touch_all_shape [of env ob c ns x] obtain j w
    where s: "touch_all env ob c ns x = x\<lparr>joined := j, withdrawn := w\<rparr>" by blast
  have "matches a (x\<lparr>joined := j, withdrawn := w\<rparr>)" using assms(1) by (simp add: matches_def)
  then show ?thesis using assms(2,3) by (simp add: s touch_def)
qed

lemma matches_touch_all [simp]: "matches a (touch_all env ob c ns x) = matches a x"
proof -
  from touch_all_shape [of env ob c ns x] obtain j w
    where s: "touch_all env ob c ns x = x\<lparr>joined := j, withdrawn := w\<rparr>" by blast
  show ?thesis by (simp add: s matches_def)
qed

lemma single_match:
  assumes "filter P T = [x]" and "c \<in> set T" and "P c"
  shows "c = x"
proof -
  from assms(2,3) have "c \<in> set (filter P T)" by simp
  with assms(1) show ?thesis by simp
qed

lemma cos_upsert_shape:
  assumes "cos_upsert a T = Inr T1"
  shows "T1 = map (touch a) T @ (if filter (matches a) T = [] then [a] else [])
       \<and> length (filter (matches a) T1) = 1"
proof (cases "filter (matches a) T")
  case Nil
  then have "\<forall>x \<in> set T. \<not> matches a x" by (simp add: filter_empty_conv)
  then have "map (touch a) T = T" by (intro map_idI) (simp add: touch_def)
  with assms Nil show ?thesis by (auto simp: cos_upsert_def matches_def)
next
  case (Cons x rest)
  with assms have rest: "rest = []" by (cases rest) (simp_all add: cos_upsert_def)
  with Cons have fx: "filter (matches a) T = [x]" by simp
  then have "x \<in> set (filter (matches a) T)" by simp
  then have mx: "matches a x" by simp
  have m: "map (\<lambda>c. if cos_person c = cos_person x \<and> cos_bill c = cos_bill x
                      then x\<lparr>joined := joined a, withdrawn := withdrawn a\<rparr> else c) T
           = map (touch a) T"
  proof (rule map_cong [OF refl])
    fix c assume cin: "c \<in> set T"
    show "(if cos_person c = cos_person x \<and> cos_bill c = cos_bill x
           then x\<lparr>joined := joined a, withdrawn := withdrawn a\<rparr> else c) = touch a c"
    proof (cases "matches a c")
      case True
      from single_match [OF fx cin True] have "c = x" .
      with True show ?thesis by (simp add: touch_def)
    next
      case False
      with mx show ?thesis by (auto simp: touch_def matches_def)
    qed
  qed
  have same: "joined x = joined a \<Longrightarrow> withdrawn x = withdrawn a \<Longrightarrow> map (touch a) T = T"
  proof (rule map_idI)
    fix c assume j: "joined x = joined a" and w: "withdrawn x = withdrawn a" and cin: "c \<in> set T"
    show "touch a c = c"
    proof (cases "matches a c")
      case True
      from single_match [OF fx cin True] have "c = x" .
      with j w show ?thesis by (simp add: touch_def)
    next
      case False
      then show ?thesis by (simp add: touch_def)
    qed
  qed
  have T1: "T1 = map (touch a) T"
    using assms fx m same by (auto simp: cos_upsert_def split: if_splits)
  have "length (filter (matches a) (map (touch a) T)) = 1"
    using fx by (simp add: filter_matches_touch)
  with T1 fx show ?thesis by simp
qed

lemma cos_run_append:
  "cos_run env ob c (xs @ ys) T =
     (case cos_run env ob c xs T of
        (Inl e, T1) \<Rightarrow> (Inl e, T1)
      | (Inr u, T1) \<Rightarrow> cos_run env ob c ys T1)"
  by (induction xs arbitrary: T) (simp_all split: sum.splits)

lemma cos_run_rerun_shape:
  assumes "\<forall>n \<in> set ns. \<exists>a. cos_resolve env ob c n = Inr a \<and> length (filter (matches a) U) = 1"
  shows "cos_run env ob c ns U = (Inr (), map (touch_all env ob c ns) U)"
  using assms
proof (induction ns arbitrary: U)
  case Nil
  show ?case by (simp add: map_idI)
next
  case (Cons n ns)
  from Cons.prems obtain a where a: "cos_resolve env ob c n = Inr a"
    and one: "length (filter (matches a) U) = 1" by auto
  from one obtain x where fx: "filter (matches a) U = [x]"
    by (cases "filter (matches a) U") auto
  then obtain U1 where u: "cos_upsert a U = Inr U1"
    by (simp add: cos_upsert_def)
  from cos_upsert_shape [OF u] fx have U1: "U1 = map (touch a) U" by simp
  have "\<forall>m \<in> set ns. \<exists>b. cos_resolve env ob c m = Inr b \<and> length (filter (matches b) U1) = 1"
    using Cons.prems by (simp add: U1 filter_matches_touch)
  from Cons.IH [OF this] a u U1 show ?case
    by (simp add: touch_all_Cons [abs_def] comp_def)
qed

lemma cos_run_invariants:
  "cos_run env ob c ns T = (Inr (), T') \<Longrightarrow>
     (\<forall>n \<in> set ns. \<exists>a. cos_resolve env ob c n = Inr a \<and> length (filter (matches a) T') = 1)
     \<and> (\<forall>x \<in> set T'. touch_all env ob c ns x = x)"
proof (induction ns arbitrary: T' rule: rev_induct)
  case Nil
  then show ?case by simp
next
  case (snoc n ns)
  from snoc.prems obtain T1 where r1: "cos_run env ob c ns T = (Inr (), T1)"
    and r2: "cos_run env ob c [n] T1 = (Inr (), T')"
    by (auto simp: cos_run_append split: prod.splits sum.splits)
  from r2 obtain a where a: "cos_resolve env ob c n = Inr a" and up: "cos_upsert a T1 = Inr T'"
    by (auto split: sum.splits)
  note ih = snoc.IH [OF r1]
  note sh = cos_upsert_shape [OF up]
  from sh have T': "T' = map (touch a) T1 @ (if filter (matches a) T1 = [] then [a] else [])"
    by (rule conjunct1)
  from sh have one: "length (filter (matches a) T') = 1"
    by (rule conjunct2)
  have counts: "\<forall>m \<in> set ns. \<exists>b. cos_resolve env ob c m = Inr b \<and> length (filter (matches b) T') = 1"
  proof
    fix m assume m: "m \<in> set ns"
    with ih obtain b where b: "cos_resolve env ob c m = Inr b"
      and b1: "length (filter (matches b) T1) = 1" by blast
    have "length (filter (matches b) T') = 1"
    proof (cases "filter (matches a) T1 = [] \<and> matches b a")
      case True
      then have "matches b = matches a" by (intro ext) (auto simp: matches_def)
      with True b1 show ?thesis by simp
    next
      case False
      then show ?thesis using b1 by (auto simp: T' filter_matches_touch)
    qed
    with b show "\<exists>b. cos_resolve env ob c m = Inr b \<and> length (filter (matches b) T') = 1" by blast
  qed
  have fixed: "\<forall>x \<in> set T'. touch_all env ob c (ns @ [n]) x = x"
  proof
    fix x assume x: "x \<in> set T'"
    have ta: "touch_all env ob c (ns @ [n]) x = touch a (touch_all env ob c ns x)"
      using a by (simp add: touch_all_snoc)
    from x T' have "(\<exists>y \<in> set T1. x = touch a y) \<or> x = a"
      by (auto split: if_splits)
    then show "touch_all env ob c (ns @ [n]) x = x"
    proof
      assume "\<exists>y \<in> set T1. x = touch a y"
      then obtain y where y: "y \<in> set T1" and xy: "x = touch a y" by blast
      show ?thesis
      proof (cases "matches a y")
        case True
        then have "matches a x" and "joined x = joined a" and "withdrawn x = withdrawn a"
          by (simp_all add: xy touch_def matches_def)
        from touch_after_all [OF this] ta show ?thesis by simp
      next
        case False
        then have xe: "x = y" by (simp add: xy touch_def)
        from ih y have "touch_all env ob c ns y = y" by blast
        with False xe ta show ?thesis by (simp add: touch_def)
      qed
    next
      assume "x = a"
      then have "matches a x" and "joined x = joined a" and "withdrawn x = withdrawn a"
        by (simp_all add: matches_def)
      from touch_after_all [OF this] ta show ?thesis by simp
    qed
  qed
  from counts one a fixed show ?case by auto
qed

lemma cos_run_idempotent:
  assumes "cos_run env ob c ns T = (Inr (), T')"
  shows "cos_run env ob c ns T' = (Inr (), T')"
proof -
  from cos_run_invariants [OF assms]
  have c: "\<forall>n \<in> set ns. \<exists>a. cos_resolve env ob c n = Inr a \<and> length (filter (matches a) T') = 1"
    and f: "\<forall>x \<in> set T'. touch_all env ob c ns x = x" by simp_all
  from f have "map (touch_all env ob c ns) T' = T'" by (intro map_idI) simp
  with cos_run_rerun_shape [OF c] show ?thesis by simp
qed

lemma get_or_create_upsert:
  assumes gc: "Cosponsor_get_or_create p ob j w r s1 = (x, s2)"
    and a: "a = \<lparr>cos_person = person_pk p, cos_bill = bill_id ob, joined = j, withdrawn = w, role = r\<rparr>"
  shows "case x of
           Inl e \<Rightarrow> cos_upsert a (cosponsors s1) = Inl e \<and> s2 = s1
         | Inr obx \<Rightarrow>
             cos_upsert a (cosponsors s1)
               = Inr (cosponsors (if joined obx \<noteq> j \<or> withdrawn obx \<noteq> w
                                  then Cosponsor_save (obx\<lparr>joined := j, withdrawn := w\<rparr>) s2 else s2))
             \<and> eff_pc (if joined obx \<noteq> j \<or> withdrawn obx \<noteq> w
                        then Cosponsor_save (obx\<lparr>joined := j, withdrawn := w\<rparr>) s2 else s2) = eff_pc s1"
proof -
  have m: "matches \<lparr>cos_person = person_pk p, cos_bill = bill_id ob, joined = j, withdrawn = w, role = r\<rparr>
             = (\<lambda>c. cos_person c = person_pk p \<and> cos_bill c = bill_id ob)"
    by (rule ext) (simp add: matches_def)
  show ?thesis
  proof (cases "filter (\<lambda>c. cos_person c = person_pk p \<and> cos_bill c = bill_id ob) (cosponsors s1)")
    case Nil
    with gc show ?thesis
      by (auto simp: Cosponsor_get_or_create_def cos_upsert_def m Let_def a)
  next
    case (Cons y rest)
    show ?thesis
    proof (cases rest)
      case Nil
      with Cons gc show ?thesis
        by (auto simp: Cosponsor_get_or_create_def cos_upsert_def m Cosponsor_save_def a)
    next
      case (Cons z zs)
      with \<open>filter (\<lambda>c. cos_person c = person_pk p \<and> cos_bill c = bill_id ob) (cosponsors s1) = y # rest\<close> gc
      show ?thesis
        by (auto simp: Cosponsor_get_or_create_def cos_upsert_def m a)
    qed
  qed
qed

lemma consponsors_loop_cos_run:
  "consponsors_loop env ob ns s = (res, s') \<Longrightarrow>
     cos_run env ob (eff_pc s) ns (cosponsors s) = (res, cosponsors s')"
proof (induction ns arbitrary: s)
  case Nil
  then show ?case by auto
next
  case (Cons n ns)
  obtain g s1 where g: "get_person (get_attr n ''id'') s = (g, s1)"
    by (cases "get_person (get_attr n ''id'') s")
  from get_person_res [of "get_attr n ''id''" s] g
  have gr: "gp_res (eff_pc s) (get_attr n ''id'') = g" by simp
  from get_person_not_IndexError [of "get_attr n ''id''" s] g have ni: "g \<noteq> Inl IndexError" by simp
  from view_fields [OF get_person_view [OF g]]
  have c1: "cosponsors s1 = cosponsors s" and e1: "eff_pc s1 = eff_pc s" by simp_all
  show ?case
  proof (cases g)
    case (Inl e)
    with ni have "e \<noteq> IndexError" by simp
    with Cons.prems g Inl have "res = Inl e" and "s' = s1" by simp_all
    with Inl gr c1 show ?thesis by (simp add: cos_resolve_def bindS_def)
  next
    case (Inr p)
    note p = Inr
    show ?thesis
    proof (cases "parse_datetime env (get_attr n ''joined'')")
      case (Inl e)
      with Cons.prems g p have "res = Inl e" and "s' = s1" by simp_all
      with Inl p gr c1 show ?thesis by (simp add: cos_resolve_def bindS_def)
    next
      case (Inr j)
      note j = Inr
      show ?thesis
      proof (cases "parse_withdrawn env (get_attr n ''withdrawn'')")
        case (Inl e)
        with Cons.prems g p j have "res = Inl e" and "s' = s1" by simp_all
        with Inl p j gr c1 show ?thesis by (simp add: cos_resolve_def bindS_def)
      next
        case (Inr w)
        note w = Inr
        show ?thesis
        proof (cases "get_role_at_date env p (Some j)")
          case (Inl e)
          with Cons.prems g p j w have "res = Inl e" and "s' = s1" by simp_all
          with Inl p j w gr c1 show ?thesis by (simp add: cos_resolve_def bindS_def)
        next
          case (Inr ro)
          note ro = Inr
          let ?a = "\<lparr>cos_person = person_pk p, cos_bill = bill_id ob, joined = j, withdrawn = w, role = ro\<rparr>"
          have res: "cos_resolve env ob (eff_pc s) n = Inr ?a"
            using p j w ro gr by (simp add: cos_resolve_def bindS_def)
          obtain x s2 where gc: "Cosponsor_get_or_create p ob j w ro s1 = (x, s2)"
            by (cases "Cosponsor_get_or_create p ob j w ro s1")
          note st = get_or_create_upsert [OF gc refl]
          show ?thesis
          proof (cases x)
            case (Inl e)
            with st have "cos_upsert ?a (cosponsors s1) = Inl e" and "s2 = s1" by simp_all
            moreover from Inl Cons.prems g p j w ro gc have "res = Inl e" and "s' = s2" by simp_all
            ultimately show ?thesis using res c1 by simp
          next
            case (Inr obx)
            let ?s3 = "if joined obx \<noteq> j \<or> withdrawn obx \<noteq> w
                     then Cosponsor_save (obx\<lparr>joined := j, withdrawn := w\<rparr>) s2 else s2"
            from Inr st have up: "cos_upsert ?a (cosponsors s1) = Inr (cosponsors ?s3)"
              and e3: "eff_pc ?s3 = eff_pc s1" by simp_all
            from Inr Cons.prems g p j w ro gc
            have "consponsors_loop env ob ns ?s3 = (res, s')" by simp
            from Cons.IH [OF this] e3 e1
            have "cos_run env ob (eff_pc s) ns (cosponsors ?s3) = (res, cosponsors s')" by simp
            with res up c1 show ?thesis by simp
          qed
        qed
      qed
    qed
  qed
qed

lemma process_consponsors_rerun:
  assumes run: "process_consponsors env ob nd s = (Inr u, s')"
    and e: "eff_pc t = eff_pc s" and c: "cosponsors t = cosponsors s'"
  shows "\<exists>t'. process_consponsors env ob nd t = (Inr (), t') \<and> view t' = view t"
proof -
  let ?ns = "xpath2 nd ''cosponsors'' ''cosponsor''"
  from run have l: "consponsors_loop env ob ?ns s = (Inr (), s')"
    by (simp add: process_consponsors_def)
  from consponsors_loop_cos_run [OF l]
  have "cos_run env ob (eff_pc s) ?ns (cosponsors s) = (Inr (), cosponsors s')" .
  from cos_run_idempotent [OF this]
  have idem: "cos_run env ob (eff_pc t) ?ns (cosponsors t) = (Inr (), cosponsors t)"
    using e c by simp
  obtain rt t' where lt: "consponsors_loop env ob ?ns t = (rt, t')"
    by (cases "consponsors_loop env ob ?ns t")
  from consponsors_loop_cos_run [OF lt] idem
  have rt: "rt = Inr ()" and ct: "cosponsors t' = cosponsors t" by simp_all
  from up_to_D(4) [OF consponsors_loop_up_to [OF lt]] ct
  have "view t' = view (t\<lparr>cosponsors := cosponsors t\<rparr>)" by simp
  then have "view t' = view t" by simp
  with lt rt show ?thesis by (simp add: process_consponsors_def)
qed

subsection \<open>The two runs\<close>

lemma up_to_others:
  "up_to bills_update s s' \<Longrightarrow>
     committees s' = committees s \<and> eff_pc s' = eff_pc s \<and> eff_tc s' = eff_tc s
     \<and> bill_committees s' = bill_committees s \<and> bill_terms s' = bill_terms s
     \<and> cosponsors s' = cosponsors s \<and> relatedbills s' = relatedbills s"
  "up_to bill_committees_update s s' \<Longrightarrow>
     committees s' = committees s \<and> eff_pc s' = eff_pc s \<and> eff_tc s' = eff_tc s
     \<and> bills s' = bills s \<and> bill_terms s' = bill_terms s
     \<and> cosponsors s' = cosponsors s \<and> relatedbills s' = relatedbills s"
  "up_to bill_terms_update s s' \<Longrightarrow>
     committees s' = committees s \<and> eff_pc s' = eff_pc s \<and> eff_tc s' = eff_tc s
     \<and> bills s' = bills s \<and> bill_committees s' = bill_committees s
     \<and> cosponsors s' = cosponsors s \<and> relatedbills s' = relatedbills s"
  "up_to cosponsors_update s s' \<Longrightarrow>
     committees s' = committees s \<and> eff_pc s' = eff_pc s \<and> eff_tc s' = eff_tc s
     \<and> bills s' = bills s \<and> bill_committees s' = bill_committees s
     \<and> bill_terms s' = bill_terms s \<and> relatedbills s' = relatedbills s"
  "up_to relatedbills_update s s' \<Longrightarrow>
     committees s' = committees s \<and> eff_pc s' = eff_pc s \<and> eff_tc s' = eff_tc s
     \<and> bills s' = bills s \<and> bill_committees s' = bill_committees s
     \<and> bill_terms s' = bill_terms s \<and> cosponsors s' = cosponsors s"
  by (drule up_to_D, drule view_fields, simp)+

lemma process_store_success:
  assumes "process_store env ob5 nd a1 = (Inr ob, s1)"
  shows "\<exists>ob6 a2 a3 a4 a5.
           adopt_id ob5 a1 = (Inr ob6, a1) \<and> Bill_save ob6 a1 = (ob, a2)
           \<and> process_committees ob nd a2 = (Inr (), a3)
           \<and> process_terms ob nd (congress ob) a3 = (Inr (), a4)
           \<and> process_consponsors env ob nd a4 = (Inr (), a5)
           \<and> process_relatedbills env ob nd a5 = (Inr (), s1)"
proof -
  obtain ra sa where a: "adopt_id ob5 a1 = (ra, sa)" by (cases "adopt_id ob5 a1")
  from adopt_id_state [OF a] have sa: "sa = a1" .
  from assms a sa obtain ob6 where ra: "ra = Inr ob6"
    by (cases ra) (auto simp: process_store_def bindM_def)
  obtain ob' a2 where sv: "Bill_save ob6 a1 = (ob', a2)" by (cases "Bill_save ob6 a1")
  obtain r3 a3 where c3: "process_committees ob' nd a2 = (r3, a3)" by (cases "process_committees ob' nd a2")
  obtain r4 a4 where c4: "process_terms ob' nd (congress ob') a3 = (r4, a4)"
    by (cases "process_terms ob' nd (congress ob') a3")
  obtain r5 a5 where c5: "process_consponsors env ob' nd a4 = (r5, a5)"
    by (cases "process_consponsors env ob' nd a4")
  obtain r6 a6 where c6: "process_relatedbills env ob' nd a5 = (r6, a6)"
    by (cases "process_relatedbills env ob' nd a5")
  from assms a sa ra sv c3 c4 c5 c6
  have "r3 = Inr () \<and> r4 = Inr () \<and> r5 = Inr () \<and> r6 = Inr () \<and> ob' = ob \<and> a6 = s1"
    by (auto simp: process_store_def bindM_def returnM_def split: sum.splits)
  with a sa ra sv c3 c4 c5 c6 show ?thesis by auto
qed

text \<open>
  C2: the table of bills has a primary key and the reconciliation of a document succeeds.
  Then reconciling the same document again, in the state the first run left, succeeds
  with the same object (the same id), and leaves every table as the first run left it.
\<close>

theorem process_idempotent:
  assumes wf: "wf_bills s0" and run: "process env Bill_new nd s0 = (Inr ob, s1)"
  shows "\<exists>s2. process env Bill_new nd s1 = (Inr ob, s2) \<and> persisted s2 = persisted s1"
proof -
  obtain rf a1 where f: "process_fields env Bill_new nd s0 = (rf, a1)"
    by (cases "process_fields env Bill_new nd s0")
  from run f obtain ob5 where rf: "rf = Inr ob5" and st: "process_store env ob5 nd a1 = (Inr ob, s1)"
    by (cases rf) (auto simp: process_split bindM_def)
  from process_store_success [OF st] obtain ob6 a2 a3 a4 a5 where
    ad: "adopt_id ob5 a1 = (Inr ob6, a1)" and sv: "Bill_save ob6 a1 = (ob, a2)" and
    c3: "process_committees ob nd a2 = (Inr (), a3)" and
    c4: "process_terms ob nd (congress ob) a3 = (Inr (), a4)" and
    c5: "process_consponsors env ob nd a4 = (Inr (), a5)" and
    c6: "process_relatedbills env ob nd a5 = (Inr (), s1)"
    by blast
  note v1 = view_fields [OF process_fields_view [OF f]]
  note o2 = up_to_others(1) [OF Bill_save_up_to [OF sv]]
  note o3 = up_to_others(2) [OF process_committees_up_to [OF c3]]
  note o4 = up_to_others(3) [OF process_terms_up_to [OF c4]]
  note o5 = up_to_others(4) [OF process_consponsors_up_to [OF c5]]
  note o6 = up_to_others(5) [OF process_relatedbills_up_to [OF c6]]
  from process_fields_ident [OF f [unfolded rf]] have nid: "bill_id ob5 = None"
    by (auto simp: Bill_new_def)
  from wf v1 have wf1: "wf_bills a1" by (simp add: wf_bills_def)
  obtain rf' t1 where f': "process_fields env Bill_new nd s1 = (rf', t1)"
    by (cases "process_fields env Bill_new nd s1")
  have "eff_pc s1 = eff_pc s0" using v1 o2 o3 o4 o5 o6 by simp
  from process_fields_res [OF this, of env Bill_new nd] f f' rf have rf': "rf' = Inr ob5" by simp
  note w1 = view_fields [OF process_fields_view [OF f']]
  have "bills t1 = bills a2" using w1 o3 o4 o5 o6 by simp
  from upsert_rerun [OF wf1 nid ad sv this]
  have ad': "adopt_id ob5 t1 = (Inr ob, t1)" and sv': "Bill_save ob t1 = (ob, t1)" by simp_all
  have "committees t1 = committees a2" and "bill_committees t1 = bill_committees a3"
    using w1 o3 o4 o5 o6 by simp_all
  from process_committees_rerun [OF c3 this] obtain t3
    where c3': "process_committees ob nd t1 = (Inr (), t3)" and v3: "view t3 = view t1" by blast
  note w3 = view_fields [OF v3]
  have "eff_tc t3 = eff_tc a3" and "bill_terms t3 = bill_terms a4"
    using w3 w1 o4 o5 o6 by simp_all
  from process_terms_rerun [OF c4 this] obtain t4
    where c4': "process_terms ob nd (congress ob) t3 = (Inr (), t4)" and v4: "view t4 = view t3" by blast
  note w4 = view_fields [OF v4]
  have "eff_pc t4 = eff_pc a4" and "cosponsors t4 = cosponsors a5"
    using w4 w3 w1 o5 o6 by simp_all
  from process_consponsors_rerun [OF c5 this] obtain t5
    where c5': "process_consponsors env ob nd t4 = (Inr (), t5)" and v5: "view t5 = view t4" by blast
  note w5 = view_fields [OF v5]
  have "bills t5 = bills a5" and "relatedbills t5 = relatedbills s1"
    using w5 w4 w3 w1 o6 by simp_all
  from process_relatedbills_rerun [OF c6 this]
  have c6': "process_relatedbills env ob nd t5 = (Inr (), t5)" .
  have "process_store env ob5 nd t1 = (Inr ob, t5)"
    using ad' sv' c3' c4' c5' c6' by (simp add: process_store_def bindM_def returnM_def)
  with f' rf' have "process env Bill_new nd s1 = (Inr ob, t5)"
    by (simp add: process_split bindM_def)
  moreover have "persisted t5 = persisted s1"
    using w5 w4 w3 w1 by simp
  ultimately show ?thesis by blast
qed

theorem process_idempotent_witness:
  "wf_bills ex_state
   \<and> fst (process ex_env Bill_new doc_hr1 ex_state) = Inr hr1_saved
   \<and> (\<exists>s2. process ex_env Bill_new doc_hr1 (snd (process ex_env Bill_new doc_hr1 ex_state))
              = (Inr hr1_saved, s2)
           \<and> persisted s2 = persisted (snd (process ex_env Bill_new doc_hr1 ex_state)))"
proof -
  have h1: "wf_bills ex_state"
    by (simp add: wf_bills_def ex_state_def)
  have ev: "fst (process ex_env Bill_new doc_hr1 ex_state) = Inr hr1_saved"
    by (simp add: process_eval xml_eval py_int_eval ex_env_def ex_state_def
        doc_hr1_def Bill_new_def hr1_saved_def)
  have run: "process ex_env Bill_new doc_hr1 ex_state
      = (Inr hr1_saved, snd (process ex_env Bill_new doc_hr1 ex_state))"
    using ev by (simp add: prod_eq_iff)
  from process_idempotent [OF h1 run] h1 ev show ?thesis by simp
qed

end
